theory Spec2Isabelle
  imports Complex_Main "HOL-Library.Multiset"
begin

section \<open>BpWordzee: the word-ranking client and the offline cache worker\<close>

text \<open>
  A shallow embedding of the two JavaScript sources of the repository: the class
  \<open>BpWordzeeClient\<close> (front/index.js) and the service worker (sw.js).
  Every thrown exception of the source is a value \<open>Inl e\<close> of a sum type; every array
  is a list; every object used as a dictionary is an association list in the order of
  \<open>Object.entries\<close>, or a map where only look-ups are made.
\<close>

subsection \<open>Thrown values\<close>

text \<open>
  \<open>TypeError\<close> is what the engine throws when a method is called on \<open>undefined\<close>;
  \<open>SyntaxError\<close> is what \<open>response.json()\<close> throws on a body that is not JSON;
  \<open>NetworkFailure\<close> is the rejection of \<open>fetch\<close>; \<open>Error msg\<close> is \<open>new Error(msg)\<close>.
\<close>

datatype js_error = TypeError | SyntaxError | NetworkFailure | Error string

subsection \<open>Scored words\<close>

text \<open>
  A ranked entry is the object \<open>{palabra, puntos}\<close>. A string is the list of its code
  units, so \<open>length\<close> is the \<open>.length\<close> of the source. Scores are the integers the
  word source sends.
\<close>

record entry =
  palabra :: string
  puntos :: int

text \<open>
  An item of the wire format is an object \<open>{"PALABRA": puntos}\<close>: the list of its own
  properties in the order of \<open>Object.keys\<close>. The empty list is the object \<open>{}\<close>.
\<close>

type_synonym item = "(string \<times> int) list"

text \<open>
  \<open>palabrasPorLongitud\<close>: an object whose keys are word lengths, as the list that
  \<open>Object.entries\<close> enumerates (integer keys in ascending order).
\<close>

type_synonym buckets = "(nat \<times> entry list) list"

subsection \<open>Array.prototype.sort with a comparator\<close>

text \<open>
  \<open>xs.sort(cmp)\<close> is stable, and with a consistent comparator it puts \<open>a\<close> before
  \<open>b\<close> whenever \<open>cmp(a, b) < 0\<close>. Insertion from the right is the executable reference:
  an element is placed before the first element it does not have to follow, so equal
  elements keep their order of arrival.
\<close>

fun insert_sorted :: "('a \<Rightarrow> 'a \<Rightarrow> int) \<Rightarrow> 'a \<Rightarrow> 'a list \<Rightarrow> 'a list" where
  "insert_sorted cmp x [] = [x]"
| "insert_sorted cmp x (y # ys) =
     (if cmp x y \<le> 0 then x # y # ys else y # insert_sorted cmp x ys)"

fun array_sort :: "('a \<Rightarrow> 'a \<Rightarrow> int) \<Rightarrow> 'a list \<Rightarrow> 'a list" where
  "array_sort cmp [] = []"
| "array_sort cmp (x # xs) = insert_sorted cmp x (array_sort cmp xs)"

text \<open>The comparator \<open>(a, b) => b.puntos - a.puntos\<close>.\<close>

definition por_puntos :: "entry \<Rightarrow> entry \<Rightarrow> int" where
  "por_puntos a b = puntos b - puntos a"

subsection \<open>procesarPalabras: grouping by length\<close>

text \<open>
  \<open>palabrasPorLongitud[longitud].push(e)\<close>: when the object has no property
  \<open>longitud\<close> the look-up gives \<open>undefined\<close> and the call of \<open>push\<close> throws a
  TypeError; otherwise the entry is appended to that array.
\<close>

definition push_entry :: "nat \<Rightarrow> entry \<Rightarrow> buckets \<Rightarrow> js_error + buckets" where
  "push_entry longitud e b =
     (case map_of b longitud of
        None \<Rightarrow> Inl TypeError
      | Some _ \<Rightarrow> Inr (map (\<lambda>(k, es). if k = longitud then (k, es @ [e]) else (k, es)) b))"

text \<open>
  The \<open>for (const item of palabras)\<close> loop. \<open>Object.keys(item)[0]\<close> of an object
  without properties is \<open>undefined\<close>, and \<open>palabra.length\<close> then throws a TypeError.
\<close>

fun agrupar :: "item list \<Rightarrow> buckets \<Rightarrow> js_error + buckets" where
  "agrupar [] b = Inr b"
| "agrupar ([] # rest) b = Inl TypeError"
| "agrupar (((p, puntosAPI) # _) # rest) b =
     (case push_entry (length p) \<lparr>palabra = p, puntos = puntosAPI\<rparr> b of
        Inl err \<Rightarrow> Inl err
      | Inr b' \<Rightarrow> agrupar rest b')"

subsection \<open>ordenarYLimitarResultados: sorting, truncation, statistics\<close>

record estadistica =
  total :: nat
  mejores :: nat
  puntos_max :: int
  puntos_min :: int

record datos =
  palabras :: "entry list"
  total :: nat
  total_antes_filtro :: nat
  estadisticas :: "string \<rightharpoonup> estadistica"

record resultado =
  success :: bool
  data :: datos

text \<open>The decimal numeral of a key, as the template literal prints it.\<close>

definition digit :: "nat \<Rightarrow> char" where
  "digit n = ''0123456789'' ! n"

function string_of_nat :: "nat \<Rightarrow> string" where
  "string_of_nat n =
     (if n < 10 then [digit n] else string_of_nat (n div 10) @ [digit (n mod 10)])"
  by pat_completeness auto
termination
  by (relation "measure id") auto

declare string_of_nat.simps [simp del]

text \<open>The key \<open>`longitud_${longitud}`\<close>.\<close>

definition clave :: "nat \<Rightarrow> string" where
  "clave longitud = ''longitud_'' @ string_of_nat longitud"

text \<open>
  The loop over \<open>Object.entries(palabrasPorLongitud)\<close>, with the three variables it
  updates: \<open>palabrasEncontradas\<close>, \<open>totalPalabras\<close> and \<open>estadisticas\<close>. The bucket
  is sorted in place before it is sliced and measured, so every later read sees the
  sorted array. The two index reads are in range, the bucket being non-empty.
\<close>

fun recorrer ::
  "buckets \<Rightarrow> entry list \<times> nat \<times> (string \<rightharpoonup> estadistica)
     \<Rightarrow> entry list \<times> nat \<times> (string \<rightharpoonup> estadistica)" where
  "recorrer [] acc = acc"
| "recorrer ((longitud, ps) # rest) (palabrasEncontradas, totalPalabras, est) =
     (if length ps = 0 then recorrer rest (palabrasEncontradas, totalPalabras, est)
      else
        let ordenadas = array_sort por_puntos ps;
            top10 = take 10 ordenadas
        in recorrer rest
             (palabrasEncontradas @ top10,
              totalPalabras + length ordenadas,
              est(clave longitud \<mapsto>
                \<lparr>estadistica.total = length ordenadas,
                 mejores = length top10,
                 puntos_max = puntos (ordenadas ! 0),
                 puntos_min = puntos (ordenadas ! (length ordenadas - 1))\<rparr>)))"

definition ordenarYLimitarResultados :: "buckets \<Rightarrow> resultado" where
  "ordenarYLimitarResultados palabrasPorLongitud =
     (case recorrer palabrasPorLongitud ([], 0, Map.empty) of
        (palabrasEncontradas, totalPalabras, est) \<Rightarrow>
          let ordenadas = array_sort por_puntos palabrasEncontradas
          in \<lparr>success = True,
              data = \<lparr>palabras = ordenadas,
                      total = length ordenadas,
                      total_antes_filtro = totalPalabras,
                      estadisticas = est\<rparr>\<rparr>)"

text \<open>The object literal \<open>{3: [], 4: [], 5: [], 6: [], 7: []}\<close>.\<close>

definition buckets_vacios :: buckets where
  "buckets_vacios = [(3, []), (4, []), (5, []), (6, []), (7, [])]"

definition procesarPalabras :: "item list \<Rightarrow> js_error + resultado" where
  "procesarPalabras ps =
     (case agrupar ps buckets_vacios of
        Inl err \<Rightarrow> Inl err
      | Inr b \<Rightarrow> Inr (ordenarYLimitarResultados b))"

subsection \<open>Vocabulary for the ranking properties\<close>

text \<open>
  The entries that the candidates stand for, in their order of arrival: of each item the
  first key and its value.
\<close>

fun entradas :: "item list \<Rightarrow> entry list" where
  "entradas [] = []"
| "entradas ([] # rest) = entradas rest"
| "entradas (((p, s) # _) # rest) = \<lparr>palabra = p, puntos = s\<rparr> # entradas rest"

text \<open>The bucket of a length: the entries whose word has that length, in order.\<close>

definition de_longitud :: "nat \<Rightarrow> entry list \<Rightarrow> entry list" where
  "de_longitud n es = filter (\<lambda>e. length (palabra e) = n) es"

text \<open>An item has a first key, and the length of that key is among the given ones.\<close>

definition admisible :: "nat list \<Rightarrow> item \<Rightarrow> bool" where
  "admisible ks it = (case it of [] \<Rightarrow> False | (p, _) # _ \<Rightarrow> length p \<in> set ks)"

text \<open>The statistics entry that the loop writes for a non-empty bucket.\<close>

definition resumen :: "entry list \<Rightarrow> estadistica" where
  "resumen ps = (let ordenadas = array_sort por_puntos ps in
     \<lparr>estadistica.total = length ordenadas, mejores = length (take 10 ordenadas),
      puntos_max = puntos (ordenadas ! 0),
      puntos_min = puntos (ordenadas ! (length ordenadas - 1))\<rparr>)"

text \<open>An item has a first key, and that word has from 3 to 7 letters.\<close>

definition en_rango :: "item \<Rightarrow> bool" where
  "en_rango it = (case it of [] \<Rightarrow> False | (p, _) # _ \<Rightarrow> 3 \<le> length p \<and> length p \<le> 7)"

text \<open>The five buckets of a list of candidates, by length from 3 to 7.\<close>

definition agrupadas :: "item list \<Rightarrow> buckets" where
  "agrupadas ps = map (\<lambda>n. (n, de_longitud n (entradas ps))) [3, 4, 5, 6, 7]"

text \<open>Fifteen candidates of length 4 with the scores 1 to 15, an input for C3.\<close>

definition quince :: "item list" where
  "quince =
     [[(''CASA'', 1)], [(''COSA'', 2)], [(''MESA'', 3)], [(''PESO'', 4)], [(''PISO'', 5)],
      [(''LOBO'', 6)], [(''LADO'', 7)], [(''DADO'', 8)], [(''DEDO'', 9)], [(''GATO'', 10)],
      [(''PATO'', 11)], [(''RATO'', 12)], [(''ROTO'', 13)], [(''MOTO'', 14)], [(''FOTO'', 15)]]"

text \<open>
  The wire object \<open>{palabra: puntos}\<close> of a ranked entry: what a second ranking of a
  result's word list is given.
\<close>

definition codificar :: "entry \<Rightarrow> item" where
  "codificar e = [(palabra e, puntos e)]"

subsection \<open>JavaScript values\<close>

text \<open>
  A number is a finite value, \<open>NaN\<close> or an infinity. Every comparison with \<open>NaN\<close> is
  false.
\<close>

datatype js_number = Finito real | NaN | Infinito | MenosInfinito

fun menor_que :: "js_number \<Rightarrow> real \<Rightarrow> bool" where
  "menor_que (Finito x) c = (x < c)"
| "menor_que NaN c = False"
| "menor_que Infinito c = False"
| "menor_que MenosInfinito c = True"

fun mayor_que :: "js_number \<Rightarrow> real \<Rightarrow> bool" where
  "mayor_que (Finito x) c = (x > c)"
| "mayor_que NaN c = False"
| "mayor_que Infinito c = True"
| "mayor_que MenosInfinito c = False"

datatype js_value =
    JUndefined
  | JNull
  | JBool bool
  | JNumber js_number
  | JString string
  | JArray "js_value list"
  | JObject "(string \<times> js_value) list"

text \<open>\<open>Array.isArray(v)\<close>, and \<open>v.length\<close> of a value that is an array.\<close>

fun isArray :: "js_value \<Rightarrow> bool" where
  "isArray (JArray _) = True"
| "isArray _ = False"

fun elementos :: "js_value \<Rightarrow> js_value list" where
  "elementos (JArray xs) = xs"
| "elementos _ = []"

text \<open>\<open>typeof v !== 'number'\<close>.\<close>

fun no_es_numero :: "js_value \<Rightarrow> bool" where
  "no_es_numero (JNumber _) = False"
| "no_es_numero _ = True"

subsection \<open>validarParametros\<close>

text \<open>
  The loop \<open>for (let i = 0; i < puntosExtra.length; i++)\<close>, over the rows that remain
  from index \<open>i\<close> on. The right operand of \<open>||\<close> is read only when the row is an
  array.
\<close>

fun validar_filas :: "js_value list \<Rightarrow> nat \<Rightarrow> js_error + unit" where
  "validar_filas [] i = Inr ()"
| "validar_filas (fila # resto) i =
     (let longitud = i + 3 in
      if \<not> isArray fila \<or> length (elementos fila) \<noteq> longitud
      then Inl (Error (''La fila '' @ string_of_nat i @ '' debe tener '' @
                       string_of_nat longitud @ '' elementos''))
      else validar_filas resto (i + 1))"

definition validarParametros :: "js_value \<Rightarrow> js_value \<Rightarrow> js_value \<Rightarrow> js_error + unit" where
  "validarParametros letrasDisponibles puntosExtra ronda =
     (if \<not> isArray letrasDisponibles \<or> length (elementos letrasDisponibles) \<noteq> 7
      then Inl (Error ''El array de letras disponibles debe tener exactamente 7 letras'')
      else if \<not> isArray puntosExtra \<or> length (elementos puntosExtra) \<noteq> 5
      then Inl (Error ''El array de puntos extra debe tener 5 filas (para longitudes 3-7)'')
      else
        (case validar_filas (elementos puntosExtra) 0 of
           Inl err \<Rightarrow> Inl err
         | Inr _ \<Rightarrow>
             (case ronda of
                JNumber x \<Rightarrow>
                  if menor_que x 1 \<or> mayor_que x 5
                  then Inl (Error (''La ronda debe ser un n'' @ [CHR 0xFA] @ ''mero entre 1 y 5''))
                  else Inr ()
              | _ \<Rightarrow> Inl (Error (''La ronda debe ser un n'' @ [CHR 0xFA] @ ''mero entre 1 y 5'')))))"

subsection \<open>obtenerPalabrasAPI and buscarPalabras\<close>

text \<open>
  What \<open>fetch(url)\<close> followed by \<open>response.json()\<close> gives: the request fails, or the
  body is not JSON, or it parses to an envelope. Of the envelope the code reads whether
  \<open>success\<close> is truthy, \<open>mensaje\<close> (absent: \<open>None\<close>) and \<open>data.palabras\<close>
  (absent: \<open>None\<close>).
\<close>

record sobre =
  exito :: bool
  mensaje :: "string option"
  palabras_api :: "item list option"

datatype respuesta_api = FalloDeRed | NoJson | Cuerpo sobre

text \<open>
  The built-in functions of the platform that the client calls, and the network, are
  parameters: \<open>String.prototype.toUpperCase\<close>, \<open>JSON.stringify\<close>,
  \<open>encodeURIComponent\<close>, the conversion of a value to a string in a template literal,
  and \<open>fetch\<close> with \<open>response.json()\<close>.
\<close>

record plataforma =
  toUpperCase :: "string \<Rightarrow> string"
  stringify :: "js_value \<Rightarrow> string"
  encodeURIComponent :: "string \<Rightarrow> string"
  a_texto :: "js_value \<Rightarrow> string"
  fetch_json :: "string \<Rightarrow> respuesta_api"

text \<open>\<open>letras.join(',')\<close> of an array of strings.\<close>

fun join :: "string \<Rightarrow> string list \<Rightarrow> string" where
  "join sep [] = []"
| "join sep [x] = x"
| "join sep (x # y # ys) = x @ sep @ join sep (y # ys)"

text \<open>
  The request and the decoding of the reply. The second component is the list of the
  URLs that were fetched. A SyntaxError of \<open>response.json()\<close> is caught and replaced by
  a generic Error; every other error is thrown again as it is.
\<close>

definition obtenerPalabrasAPI ::
  "plataforma \<Rightarrow> string list \<Rightarrow> js_value \<Rightarrow> js_value \<Rightarrow> string
     \<Rightarrow> (js_error + item list) \<times> string list" where
  "obtenerPalabrasAPI pf letras puntosExtra ronda apiUrl =
     (let letrasParam = join '','' letras;
          puntosExtraParam = stringify pf puntosExtra;
          url = apiUrl @ ''?letras='' @ letrasParam @ ''&puntos_extra='' @
                encodeURIComponent pf puntosExtraParam @ ''&ronda='' @ a_texto pf ronda
      in (case fetch_json pf url of
            FalloDeRed \<Rightarrow> Inl NetworkFailure
          | NoJson \<Rightarrow>
              Inl (Error (''El servidor no respondi'' @ [CHR 0xF3] @ '' correctamente. Int'' @
                          [CHR 0xE9] @ ''ntalo de nuevo.''))
          | Cuerpo d \<Rightarrow>
              if \<not> exito d
              then Inl (Error (case mensaje d of
                                 None \<Rightarrow> ''No se pudo obtener las palabras del servidor''
                               | Some m \<Rightarrow>
                                   if m = [] then ''No se pudo obtener las palabras del servidor''
                                   else m))
              else (case palabras_api d of None \<Rightarrow> Inl TypeError | Some ps \<Rightarrow> Inr ps),
          [url]))"

text \<open>
  \<open>letrasDisponibles.map(l => l.toUpperCase())\<close>: an element that is not a string has
  no method \<open>toUpperCase\<close>, and the call throws a TypeError.
\<close>

fun normalizar :: "plataforma \<Rightarrow> js_value list \<Rightarrow> js_error + string list" where
  "normalizar pf [] = Inr []"
| "normalizar pf (JString l # resto) =
     (case normalizar pf resto of
        Inl err \<Rightarrow> Inl err
      | Inr ls \<Rightarrow> Inr (toUpperCase pf l # ls))"
| "normalizar pf (_ # resto) = Inl TypeError"

definition buscarPalabras ::
  "plataforma \<Rightarrow> js_value \<Rightarrow> js_value \<Rightarrow> js_value \<Rightarrow> string
     \<Rightarrow> (js_error + resultado) \<times> string list" where
  "buscarPalabras pf letrasDisponibles puntosExtra ronda apiUrl =
     (case validarParametros letrasDisponibles puntosExtra ronda of
        Inl err \<Rightarrow> (Inl err, [])
      | Inr _ \<Rightarrow>
          (case normalizar pf (elementos letrasDisponibles) of
             Inl err \<Rightarrow> (Inl err, [])
           | Inr letrasNormalizadas \<Rightarrow>
               (case obtenerPalabrasAPI pf letrasNormalizadas puntosExtra ronda apiUrl of
                  (Inl err, pedidas) \<Rightarrow> (Inl err, pedidas)
                | (Inr palabrasCoincidentes, pedidas) \<Rightarrow>
                    (procesarPalabras palabrasCoincidentes, pedidas))))"

subsection \<open>Vocabulary for the validation properties\<close>

text \<open>
  Seven letters, a bonus table with rows of 3 to 7 empty tokens, and a platform that
  puts the letters a to z in upper case, whose other functions are constant and whose
  network always fails: inputs for C2.
\<close>

definition letras7 :: js_value where
  "letras7 = JArray (map JString [''c'', ''a'', ''s'', ''a'', ''r'', ''o'', ''n''])"

definition tabla5 :: js_value where
  "tabla5 = JArray (map (\<lambda>n. JArray (replicate n (JString ''''))) [3, 4, 5, 6, 7])"

definition plataforma_fija :: plataforma where
  "plataforma_fija =
     \<lparr>toUpperCase =
        map (\<lambda>c. case map_of (zip ''abcdefghijklmnopqrstuvwxyz'' ''ABCDEFGHIJKLMNOPQRSTUVWXYZ'') c of
                   Some C \<Rightarrow> C
                 | None \<Rightarrow> c),
      stringify = (\<lambda>_. ''[]''), encodeURIComponent = (\<lambda>s. s),
      a_texto = (\<lambda>_. ''2''), fetch_json = (\<lambda>_. FalloDeRed)\<rparr>"

subsection \<open>The service worker: responses, requests, cache storage\<close>

text \<open>
  A body is kept as what the code puts in or reads out of it: the JSON text of a value
  (\<open>JSON.stringify(v)\<close>, which \<open>response.json()\<close> decodes to \<open>v\<close> again), or other
  content.
\<close>

datatype body = JsonDe js_value | Contenido string

record response =
  status :: nat
  statusText :: string
  headers :: "(string \<times> string) list"
  cuerpo :: body

text \<open>
  A request with the parts of \<open>new URL(request.url)\<close> that the worker reads. The
  requests are GET requests, the only ones a cache stores or matches, and a cache
  identifies such a request by its URL.
\<close>

record request =
  url :: string
  pathname :: string
  hostname :: string
  origin :: string

text \<open>
  \<open>CacheStorage\<close>: the named caches in their order of creation, each a list of stored
  responses by URL.
\<close>

type_synonym cache = "(string \<times> response) list"

type_synonym cache_storage = "(string \<times> cache) list"

text \<open>\<open>caches.keys()\<close>.\<close>

definition caches_keys :: "cache_storage \<Rightarrow> string list" where
  "caches_keys cs = map fst cs"

text \<open>\<open>caches.open(name)\<close> creates the cache when there is none of that name.\<close>

definition caches_open :: "string \<Rightarrow> cache_storage \<Rightarrow> cache_storage" where
  "caches_open name cs = (if name \<in> set (caches_keys cs) then cs else cs @ [(name, [])])"

text \<open>\<open>caches.delete(name)\<close>.\<close>

definition caches_delete :: "string \<Rightarrow> cache_storage \<Rightarrow> cache_storage" where
  "caches_delete name cs = filter (\<lambda>(k, _). k \<noteq> name) cs"

text \<open>\<open>cache.put(request, response)\<close> on the cache of that name: the entry of the URL is replaced.\<close>

definition cache_put :: "string \<Rightarrow> string \<Rightarrow> response \<Rightarrow> cache_storage \<Rightarrow> cache_storage" where
  "cache_put name u r cs =
     map (\<lambda>(k, c). if k = name then (k, (u, r) # filter (\<lambda>(u', _). u' \<noteq> u) c) else (k, c)) cs"

text \<open>\<open>caches.match(request)\<close> looks through every cache, in the order of creation.\<close>

fun caches_match :: "string \<Rightarrow> cache_storage \<Rightarrow> response option" where
  "caches_match u [] = None"
| "caches_match u ((_, c) # cs) =
     (case map_of c u of Some r \<Rightarrow> Some r | None \<Rightarrow> caches_match u cs)"

text \<open>
  The surroundings of the worker: \<open>location.origin\<close>, the resolution of a URL of a
  manifest against the location of the worker, and the network (\<open>None\<close>: the fetch
  fails).
\<close>

record entorno =
  location_origin :: string
  resolver :: "string \<Rightarrow> string"
  red :: "string \<Rightarrow> response option"

text \<open>
  The state of the worker: the cache storage, the skip-waiting flag that
  \<open>self.skipWaiting()\<close> sets, whether \<open>clients.claim()\<close> was called, the URLs fetched from
  the network so far, and the cache writes that were started without being awaited (cache
  name, URL, response), oldest first.
\<close>

record worker =
  caches :: cache_storage
  skipWaitingFlag :: bool
  clientsClaimed :: bool
  fetched :: "string list"
  pendientes :: "(string \<times> string \<times> response) list"

subsection \<open>The constants of sw.js\<close>

definition VERSION :: string where
  "VERSION = ''20260203-1915''"

text \<open>The two cache names, as functions of the version string they embed.\<close>

definition CACHE_NAME :: "string \<Rightarrow> string" where
  "CACHE_NAME v = ''bpwordzee-'' @ v"

definition CACHE_NAME_EXTERNAL :: "string \<Rightarrow> string" where
  "CACHE_NAME_EXTERNAL v = ''bpwordzee-external-'' @ v"

definition PRECACHE_URLS :: "string list" where
  "PRECACHE_URLS =
     [''./'', ''./index.html'', ''./front/index.css'', ''./front/index.js'',
      ''./front/icons/favicon.ico'', ''./front/icons/wordzee-32_32.png'',
      ''./front/icons/wordzee-64_64.jpg'', ''./front/icons/wordzee-256_256.webp'',
      ''./front/icons/wordzee-512_512.png'', ''./front/icons/telegram.png'',
      ''./front/icons/Facebook_f_logo_2019.svg'']"

definition EXTERNAL_URLS :: "string list" where
  "EXTERNAL_URLS =
     [''https://cdn.jsdelivr.net/npm/bootstrap@5.3.8/dist/css/bootstrap.min.css'',
      ''https://cdn.jsdelivr.net/npm/bootstrap@5.3.8/dist/js/bootstrap.bundle.min.js'']"

subsection \<open>The install listener\<close>

text \<open>
  \<open>cache.addAll(urls)\<close> fetches every URL and stores the responses, or stores nothing
  and rejects when a fetch fails or a response is not ok (status outside 200 to 299).
\<close>

fun traer_todas :: "entorno \<Rightarrow> string list \<Rightarrow> (string \<times> response) list option" where
  "traer_todas env [] = Some []"
| "traer_todas env (u # us) =
     (case red env (resolver env u) of
        None \<Rightarrow> None
      | Some r \<Rightarrow>
          if 200 \<le> status r \<and> status r \<le> 299
          then (case traer_todas env us of
                  None \<Rightarrow> None
                | Some rs \<Rightarrow> Some ((resolver env u, r) # rs))
          else None)"

definition addAll :: "entorno \<Rightarrow> string \<Rightarrow> string list \<Rightarrow> worker \<Rightarrow> bool \<times> worker" where
  "addAll env name urls w =
     (let w' = w\<lparr>fetched := fetched w @ map (resolver env) urls\<rparr> in
      case traer_todas env urls of
        None \<Rightarrow> (False, w')
      | Some rs \<Rightarrow> (True, w'\<lparr>caches := fold (\<lambda>(u, r). cache_put name u r) rs (caches w')\<rparr>))"

text \<open>
  The listener waits for both precaches; the failure of the external one is swallowed by
  \<open>.catch(() => {})\<close>, the failure of the first makes the installation fail. The call
  \<open>self.skipWaiting()\<close> stands after \<open>event.waitUntil(...)\<close>, outside every condition.
  The result says whether the installation succeeded.
\<close>

definition install_listener :: "string \<Rightarrow> entorno \<Rightarrow> worker \<Rightarrow> bool \<times> worker" where
  "install_listener v env w =
     (let w1 = w\<lparr>caches := caches_open (CACHE_NAME v) (caches w)\<rparr>;
          (ok, w2) = addAll env (CACHE_NAME v) PRECACHE_URLS w1;
          w3 = w2\<lparr>caches := caches_open (CACHE_NAME_EXTERNAL v) (caches w2)\<rparr>;
          (_, w4) = addAll env (CACHE_NAME_EXTERNAL v) EXTERNAL_URLS w3
      in (ok, w4\<lparr>skipWaitingFlag := True\<rparr>))"

subsection \<open>The activate listener\<close>

definition activate_listener :: "string \<Rightarrow> worker \<Rightarrow> worker" where
  "activate_listener v w =
     (let keys = caches_keys (caches w);
          viejas = filter (\<lambda>key. key \<noteq> CACHE_NAME v \<and> key \<noteq> CACHE_NAME_EXTERNAL v) keys
      in w\<lparr>caches := fold caches_delete viejas (caches w), clientsClaimed := True\<rparr>)"

subsection \<open>The fetch listener\<close>

text \<open>\<open>s.includes(sub)\<close>: \<open>sub\<close> occurs in \<open>s\<close>.\<close>

fun empieza_con :: "string \<Rightarrow> string \<Rightarrow> bool" where
  "empieza_con s [] = True"
| "empieza_con [] (c # cs) = False"
| "empieza_con (x # xs) (c # cs) = (x = c \<and> empieza_con xs cs)"

fun js_includes :: "string \<Rightarrow> string \<Rightarrow> bool" where
  "js_includes [] sub = (sub = [])"
| "js_includes (x # xs) sub = (empieza_con (x # xs) sub \<or> js_includes xs sub)"

text \<open>The response that the worker makes up when the network fails on an API request.\<close>

definition respuesta_sin_conexion :: response where
  "respuesta_sin_conexion =
     \<lparr>status = 200, statusText = ''OK'',
      headers = [(''Content-Type'', ''application/json'')],
      cuerpo = JsonDe (JObject
        [(''success'', JBool False),
         (''mensaje'', JString (''No se pudo conectar con el servidor. Verifica tu conexi'' @
            [CHR 0xF3] @ ''n a internet.''))])\<rparr>"

text \<open>
  The listener answers with a response or with the rejection of \<open>fetch\<close>. In the branch
  of the external resources the write into the cache is started and not awaited:
  \<open>caches.open(...).then(...)\<close> is neither returned nor passed to \<open>waitUntil\<close>, and the
  response is returned at once. The write is therefore recorded as pending.
\<close>

definition fetch_listener ::
  "string \<Rightarrow> entorno \<Rightarrow> request \<Rightarrow> worker \<Rightarrow> (js_error + response) \<times> worker" where
  "fetch_listener v env rq w =
     (if js_includes (pathname rq) ''/api/'' \<or> js_includes (hostname rq) ''api.''
      then
        (case red env (url rq) of
           Some r \<Rightarrow> (Inr r, w\<lparr>fetched := fetched w @ [url rq]\<rparr>)
         | None \<Rightarrow> (Inr respuesta_sin_conexion, w\<lparr>fetched := fetched w @ [url rq]\<rparr>))
      else if origin rq \<noteq> location_origin env
      then
        (case caches_match (url rq) (caches w) of
           Some cached \<Rightarrow> (Inr cached, w)
         | None \<Rightarrow>
             (case red env (url rq) of
                None \<Rightarrow> (Inl NetworkFailure, w\<lparr>fetched := fetched w @ [url rq]\<rparr>)
              | Some r \<Rightarrow>
                  if status r = 200
                  then (Inr r, w\<lparr>fetched := fetched w @ [url rq],
                                  pendientes := pendientes w @ [(CACHE_NAME_EXTERNAL v, url rq, r)]\<rparr>)
                  else (Inr r, w\<lparr>fetched := fetched w @ [url rq]\<rparr>)))
      else
        (case caches_match (url rq) (caches w) of
           Some cached \<Rightarrow> (Inr cached, w)
         | None \<Rightarrow>
             (case red env (url rq) of
                None \<Rightarrow> (Inl NetworkFailure, w\<lparr>fetched := fetched w @ [url rq]\<rparr>)
              | Some r \<Rightarrow> (Inr r, w\<lparr>fetched := fetched w @ [url rq]\<rparr>))))"

text \<open>
  The pending writes run to their end: \<open>caches.open(name)\<close>, then
  \<open>cache.put(request, responseClone)\<close>, each in its turn.
\<close>

definition completar :: "worker \<Rightarrow> worker" where
  "completar w =
     w\<lparr>caches := fold (\<lambda>(name, u, r) cs. cache_put name u r (caches_open name cs))
                    (pendientes w) (caches w),
       pendientes := []\<rparr>"

subsection \<open>The message listener\<close>

text \<open>\<open>!v\<close>: the values that count as false.\<close>

fun falsy :: "js_value \<Rightarrow> bool" where
  "falsy JUndefined = True"
| "falsy JNull = True"
| "falsy (JBool b) = (\<not> b)"
| "falsy (JNumber x) = (x = Finito 0 \<or> x = NaN)"
| "falsy (JString s) = (s = [])"
| "falsy _ = False"

text \<open>\<open>v.type\<close> of a value that is neither \<open>undefined\<close> nor \<open>null\<close>.\<close>

fun propiedad_type :: "js_value \<Rightarrow> js_value" where
  "propiedad_type (JObject ps) = (case map_of ps ''type'' of Some x \<Rightarrow> x | None \<Rightarrow> JUndefined)"
| "propiedad_type _ = JUndefined"

definition message_listener :: "js_value \<Rightarrow> worker \<Rightarrow> worker" where
  "message_listener datos_evento w =
     (if falsy datos_evento then w
      else if propiedad_type datos_evento = JString ''SKIP_WAITING''
      then w\<lparr>skipWaitingFlag := True\<rparr>
      else w)"

text \<open>
  The rule of the platform for a worker whose installation has ended: a failed
  installation discards it; an installed worker with the skip-waiting flag is activated
  at once; without the flag it waits until no client uses the previous version.
\<close>

datatype fase = Descartado | Activando | EnEspera

definition tras_instalar :: "bool \<times> worker \<Rightarrow> fase" where
  "tras_instalar r =
     (case r of (ok, w) \<Rightarrow>
        if \<not> ok then Descartado else if skipWaitingFlag w then Activando else EnEspera)"

subsection \<open>Vocabulary for the properties of the worker\<close>

text \<open>
  A worker that has done nothing yet; surroundings whose network always fails, always
  answers 200, or always answers 404; a request to the API and a request to the CDN.
\<close>

definition worker_inicial :: worker where
  "worker_inicial =
     \<lparr>caches = [], skipWaitingFlag = False, clientsClaimed = False, fetched = [], pendientes = []\<rparr>"

definition sin_red :: entorno where
  "sin_red = \<lparr>location_origin = ''https://bpwordzee.example'', resolver = (\<lambda>u. u), red = (\<lambda>_. None)\<rparr>"

definition hoja :: response where
  "hoja = \<lparr>status = 200, statusText = ''OK'', headers = [(''Content-Type'', ''text/css'')],
           cuerpo = Contenido ''body{}''\<rparr>"

definition con_red :: entorno where
  "con_red = \<lparr>location_origin = ''https://bpwordzee.example'', resolver = (\<lambda>u. u),
              red = (\<lambda>_. Some hoja)\<rparr>"

definition red_404 :: entorno where
  "red_404 = \<lparr>location_origin = ''https://bpwordzee.example'', resolver = (\<lambda>u. u),
              red = (\<lambda>_. Some (hoja\<lparr>status := 404, statusText := ''Not Found''\<rparr>))\<rparr>"

definition pedido_api :: request where
  "pedido_api =
     \<lparr>url = ''http://127.0.0.1/api/bpwordzee?letras=A'', pathname = ''/api/bpwordzee'',
      hostname = ''127.0.0.1'', origin = ''http://127.0.0.1''\<rparr>"

definition pedido_cdn :: request where
  "pedido_cdn =
     \<lparr>url = ''https://cdn.jsdelivr.net/npm/bootstrap@5.3.8/dist/css/bootstrap.min.css'',
      pathname = ''/npm/bootstrap@5.3.8/dist/css/bootstrap.min.css'',
      hostname = ''cdn.jsdelivr.net'', origin = ''https://cdn.jsdelivr.net''\<rparr>"

section \<open>Properties of the ranking pipeline\<close>

lemma insert_sorted_por_puntos:
  "insert_sorted por_puntos x ys = insort_key (\<lambda>e. - puntos e) x ys"
  by (induction ys) (auto simp: por_puntos_def)

lemma array_sort_por_puntos:
  "array_sort por_puntos xs = sort_key (\<lambda>e. - puntos e) xs"
  by (induction xs) (simp_all add: insert_sorted_por_puntos)

lemma push_entry_eq:
  "push_entry k e b =
     (if k \<in> set (map fst b)
      then Inr (map (\<lambda>(k', es). (k', es @ (if k' = k then [e] else []))) b)
      else Inl TypeError)"
proof (cases "map_of b k")
  case None
  then have "k \<notin> fst ` set b" by (simp add: map_of_eq_None_iff)
  with None show ?thesis by (simp add: push_entry_def)
next
  case (Some es)
  then have "k \<in> fst ` set b" by (metis map_of_eq_None_iff option.distinct(1))
  moreover have "map (\<lambda>(k', es). if k' = k then (k', es @ [e]) else (k', es)) b
       = map (\<lambda>(k', es). (k', es @ (if k' = k then [e] else []))) b"
    by (rule map_cong) auto
  ultimately show ?thesis using Some by (simp add: push_entry_def)
qed

lemma agrupar_eq:
  "agrupar ps b =
     (if list_all (admisible (map fst b)) ps
      then Inr (map (\<lambda>(k, es). (k, es @ de_longitud k (entradas ps))) b)
      else Inl TypeError)"
proof (induction ps b rule: agrupar.induct)
  case (1 b)
  then show ?case by (simp add: de_longitud_def split_def)
next
  case (2 rest b)
  then show ?case by (simp add: admisible_def)
next
  case (3 p puntosAPI uu rest b)
  show ?case
  proof (cases "length p \<in> set (map fst b)")
    case False
    then show ?thesis by (simp add: push_entry_eq admisible_def)
  next
    case True
    let ?b' = "map (\<lambda>(k', es). (k', es @ (if k' = length p then [\<lparr>palabra = p, puntos = puntosAPI\<rparr>] else []))) b"
    have pe: "push_entry (length p) \<lparr>palabra = p, puntos = puntosAPI\<rparr> b = Inr ?b'"
      using True by (simp add: push_entry_eq)
    have keys: "map fst ?b' = map fst b" by (induction b) auto
    have "agrupar (((p, puntosAPI) # uu) # rest) b = agrupar rest ?b'"
      using pe by simp
    also have "\<dots> = (if list_all (admisible (map fst b)) rest
      then Inr (map (\<lambda>(k, es). (k, es @ de_longitud k (entradas rest))) ?b')
      else Inl TypeError)"
      unfolding "3.IH"[OF pe] keys ..
    finally have eq: "agrupar (((p, puntosAPI) # uu) # rest) b =
      (if list_all (admisible (map fst b)) rest
       then Inr (map (\<lambda>(k, es). (k, es @ de_longitud k (entradas rest))) ?b')
       else Inl TypeError)" .
    have adm: "admisible (map fst b) ((p, puntosAPI) # uu)"
      using True by (simp add: admisible_def)
    have ent: "map (\<lambda>(k, es). (k, es @ de_longitud k (entradas rest))) ?b' =
      map (\<lambda>(k, es). (k, es @ de_longitud k (entradas (((p, puntosAPI) # uu) # rest)))) b"
      by (simp add: de_longitud_def split_def)
    show ?thesis unfolding eq ent using adm by simp
  qed
qed

lemma length_array_sort [simp]: "length (array_sort por_puntos xs) = length xs"
  by (simp add: array_sort_por_puntos)

lemma recorrer_palabras:
  "fst (recorrer b (acc, t, est)) =
     acc @ concat (map (\<lambda>(k, ps). take 10 (array_sort por_puntos ps)) b)"
  by (induction b arbitrary: acc t est) (auto simp: Let_def)

lemma recorrer_total:
  "fst (snd (recorrer b (acc, t, est))) = t + sum_list (map (\<lambda>(k, ps). length ps) b)"
  by (induction b arbitrary: acc t est) (auto simp: Let_def)

lemma recorrer_est_otra:
  "s \<notin> clave ` fst ` set b \<Longrightarrow> snd (snd (recorrer b (acc, t, est))) s = est s"
  by (induction b arbitrary: acc t est) (auto simp: Let_def)

lemma recorrer_est_clave:
  "distinct (map (clave \<circ> fst) b) \<Longrightarrow> (k, ps) \<in> set b \<Longrightarrow>
   snd (snd (recorrer b (acc, t, est))) (clave k) =
     (if ps = [] then est (clave k) else Some (resumen ps))"
proof (induction b arbitrary: acc t est)
  case Nil
  then show ?case by simp
next
  case (Cons kv b)
  obtain k' ps' where kv: "kv = (k', ps')" by (cases kv)
  show ?case
  proof (cases "(k, ps) \<in> set b")
    case True
    from Cons.prems have d: "distinct (map (clave \<circ> fst) b)" by (simp add: comp_def)
    from Cons.prems True have ne: "clave k \<noteq> clave k'"
      by (force simp: kv)
    note IH = Cons.IH[OF d True]
    show ?thesis
      using ne by (simp add: kv Let_def IH)
  next
    case False
    with Cons.prems have here: "k' = k" "ps' = ps" by (auto simp: kv)
    from Cons.prems have "clave k \<notin> clave ` fst ` set b"
      by (auto simp: kv here)
    then show ?thesis
      by (simp add: kv here Let_def recorrer_est_otra resumen_def)
  qed
qed

lemma ordenar_palabras:
  "palabras (data (ordenarYLimitarResultados b)) =
     array_sort por_puntos (concat (map (\<lambda>(k, ps). take 10 (array_sort por_puntos ps)) b))"
  using recorrer_palabras[of b "[]" 0 Map.empty]
  by (simp add: ordenarYLimitarResultados_def Let_def split_def)

lemma ordenar_total:
  "total (data (ordenarYLimitarResultados b)) = length (palabras (data (ordenarYLimitarResultados b)))"
  by (simp add: ordenarYLimitarResultados_def Let_def split_def)

lemma ordenar_total_antes:
  "total_antes_filtro (data (ordenarYLimitarResultados b)) = sum_list (map (\<lambda>(k, ps). length ps) b)"
  using recorrer_total[of b "[]" 0 Map.empty]
  by (simp add: ordenarYLimitarResultados_def Let_def split_def)

lemma ordenar_est_clave:
  "distinct (map (clave \<circ> fst) b) \<Longrightarrow> (k, ps) \<in> set b \<Longrightarrow>
   estadisticas (data (ordenarYLimitarResultados b)) (clave k) =
     (if ps = [] then None else Some (resumen ps))"
  using recorrer_est_clave[of b k ps "[]" 0 Map.empty]
  by (simp add: ordenarYLimitarResultados_def Let_def split_def)

lemma ordenar_est_otra:
  "s \<notin> clave ` fst ` set b \<Longrightarrow> estadisticas (data (ordenarYLimitarResultados b)) s = None"
  using recorrer_est_otra[of s b "[]" 0 Map.empty]
  by (simp add: ordenarYLimitarResultados_def Let_def split_def)

lemma admisible_en_rango: "admisible [3, 4, 5, 6, 7] it = en_rango it"
  by (auto simp: admisible_def en_rango_def split: list.splits)

lemma procesarPalabras_eq:
  "procesarPalabras ps =
     (if list_all en_rango ps then Inr (ordenarYLimitarResultados (agrupadas ps))
      else Inl TypeError)"
proof -
  have "list_all (admisible [3, 4, 5, 6, 7]) ps = list_all en_rango ps"
    by (simp add: admisible_en_rango[abs_def])
  then show ?thesis
    by (simp add: procesarPalabras_def agrupar_eq buckets_vacios_def agrupadas_def)
qed

lemma claves_distintas: "distinct (map clave [3, 4, 5, 6, 7])"
  by (simp add: clave_def string_of_nat.simps digit_def)

lemma sort_take_sort:
  "array_sort por_puntos (take k (array_sort por_puntos xs)) = take k (array_sort por_puntos xs)"
proof -
  have "sorted (map (\<lambda>e. - puntos e) (take k (sort_key (\<lambda>e. - puntos e) xs)))"
    by (simp add: take_map[symmetric] sorted_wrt_take)
  then show ?thesis
    by (simp add: array_sort_por_puntos sort_key_id_if_sorted)
qed

lemma de_longitud_sort:
  "de_longitud n (array_sort por_puntos xs) = array_sort por_puntos (de_longitud n xs)"
  by (simp add: de_longitud_def array_sort_por_puntos filter_sort)

lemma de_longitud_take_sort:
  "de_longitud n (take k (array_sort por_puntos (de_longitud m es))) =
     (if m = n then take k (array_sort por_puntos (de_longitud n es)) else [])"
proof -
  define ys where "ys = take k (array_sort por_puntos (de_longitud m es))"
  have "set ys \<subseteq> set (array_sort por_puntos (de_longitud m es))"
    unfolding ys_def by (rule set_take_subset)
  also have "\<dots> = set (de_longitud m es)"
    by (simp only: array_sort_por_puntos set_sort)
  finally have all: "\<forall>e \<in> set ys. length (palabra e) = m"
    unfolding de_longitud_def by auto
  have "de_longitud n ys = (if m = n then ys else [])"
  proof (cases "m = n")
    case True
    with all show ?thesis by (simp add: de_longitud_def filter_id_conv)
  next
    case False
    with all show ?thesis by (simp add: de_longitud_def filter_empty_conv)
  qed
  then show ?thesis unfolding ys_def by auto
qed

lemma palabras_agrupadas:
  "palabras (data (ordenarYLimitarResultados (agrupadas ps))) =
     array_sort por_puntos
       (concat (map (\<lambda>n. take 10 (array_sort por_puntos (de_longitud n (entradas ps))))
          [3, 4, 5, 6, 7]))"
  by (simp add: ordenar_palabras agrupadas_def)

lemma de_longitud_palabras:
  assumes "3 \<le> n" "n \<le> 7"
  shows "de_longitud n (palabras (data (ordenarYLimitarResultados (agrupadas ps)))) =
     take 10 (array_sort por_puntos (de_longitud n (entradas ps)))"
proof -
  from assms have "n = 3 \<or> n = 4 \<or> n = 5 \<or> n = 6 \<or> n = 7" by arith
  moreover have "de_longitud n (palabras (data (ordenarYLimitarResultados (agrupadas ps)))) =
    array_sort por_puntos (concat (map (\<lambda>m. de_longitud n
       (take 10 (array_sort por_puntos (de_longitud m (entradas ps))))) [3, 4, 5, 6, 7]))"
    unfolding palabras_agrupadas de_longitud_sort
    by (simp add: de_longitud_def filter_concat comp_def)
  ultimately show ?thesis
    by (auto simp: de_longitud_take_sort sort_take_sort)
qed

lemma set_array_sort [simp]: "set (array_sort por_puntos xs) = set xs"
  by (simp only: array_sort_por_puntos set_sort)

lemma set_top_subset: "set (take k (array_sort por_puntos xs)) \<subseteq> set xs"
  using set_take_subset[of k "array_sort por_puntos xs"] by (simp only: set_array_sort)

lemma rango_palabras:
  "list_all (\<lambda>e. 3 \<le> length (palabra e) \<and> length (palabra e) \<le> 7)
     (palabras (data (ordenarYLimitarResultados (agrupadas ps))))"
proof -
  have "3 \<le> length (palabra e) \<and> length (palabra e) \<le> 7"
    if "e \<in> set (take 10 (array_sort por_puntos (de_longitud n (entradas ps))))"
      and "n \<in> {3, 4, 5, 6, 7}" for e n
  proof -
    from that(1) set_top_subset have "e \<in> set (de_longitud n (entradas ps))" by blast
    then have "length (palabra e) = n" by (simp add: de_longitud_def)
    with that(2) show ?thesis by auto
  qed
  then show ?thesis
    unfolding palabras_agrupadas list_all_iff set_array_sort by auto
qed

lemma sorted_desc_array_sort:
  "sorted_wrt (\<lambda>a b. puntos b \<le> puntos a) (array_sort por_puntos xs)"
proof -
  have "sorted (map (\<lambda>e. - puntos e) (sort_key (\<lambda>e. - puntos e) xs))"
    by (rule sorted_sort_key)
  then show ?thesis
    by (simp add: array_sort_por_puntos sorted_map)
qed

lemma mset_array_sort: "mset (array_sort por_puntos xs) = mset xs"
  by (simp add: array_sort_por_puntos)

lemma total_antes_agrupadas:
  "total_antes_filtro (data (ordenarYLimitarResultados (agrupadas ps))) =
     sum_list (map (\<lambda>n. length (de_longitud n (entradas ps))) [3, 4, 5, 6, 7])"
  by (simp add: ordenar_total_antes agrupadas_def)

lemma est_agrupadas:
  assumes "3 \<le> n" "n \<le> 7"
  shows "estadisticas (data (ordenarYLimitarResultados (agrupadas ps))) (clave n) =
     (if de_longitud n (entradas ps) = [] then None
      else Some (resumen (de_longitud n (entradas ps))))"
proof -
  from assms have "n = 3 \<or> n = 4 \<or> n = 5 \<or> n = 6 \<or> n = 7" by arith
  then have mem: "(n, de_longitud n (entradas ps)) \<in> set (agrupadas ps)"
    by (auto simp: agrupadas_def)
  have "map (clave \<circ> fst) (agrupadas ps) = map clave [3, 4, 5, 6, 7]"
    by (simp add: agrupadas_def)
  with claves_distintas have "distinct (map (clave \<circ> fst) (agrupadas ps))" by simp
  from ordenar_est_clave[OF this mem] show ?thesis .
qed

lemma est_agrupadas_otra:
  assumes "k \<notin> clave ` {3, 4, 5, 6, 7}"
  shows "estadisticas (data (ordenarYLimitarResultados (agrupadas ps))) k = None"
proof -
  have "fst ` set (agrupadas ps) = {3, 4, 5, 6, 7}" by (simp add: agrupadas_def)
  with assms show ?thesis by (simp add: ordenar_est_otra)
qed

lemma array_sort_nonempty: "xs \<noteq> [] \<Longrightarrow> array_sort por_puntos xs \<noteq> []"
  by (metis length_array_sort length_0_conv)

lemma resumen_eq:
  assumes "b \<noteq> []"
  shows "resumen b = \<lparr>estadistica.total = length b,
            mejores = min 10 (length b),
            puntos_max = puntos (hd (array_sort por_puntos b)),
            puntos_min = puntos (last (array_sort por_puntos b))\<rparr>"
proof -
  from assms have ne: "array_sort por_puntos b \<noteq> []" by (rule array_sort_nonempty)
  then have "array_sort por_puntos b ! 0 = hd (array_sort por_puntos b)"
    by (simp add: hd_conv_nth)
  moreover from ne have "array_sort por_puntos b ! (length b - 1) = last (array_sort por_puntos b)"
    by (simp add: last_conv_nth)
  ultimately show ?thesis by (simp add: resumen_def Let_def min.commute)
qed

lemma resultado_bucket:
  assumes "procesarPalabras ps = Inr r"
    and "3 \<le> n" and "n \<le> 7"
    and "b = de_longitud n (entradas ps)"
  shows "(b = [] \<longrightarrow> estadisticas (data r) (clave n) = None) \<and>
         (b \<noteq> [] \<longrightarrow>
            estadisticas (data r) (clave n) =
              Some \<lparr>estadistica.total = length b,
                    mejores = length (de_longitud n (palabras (data r))),
                    puntos_max = puntos (hd (array_sort por_puntos b)),
                    puntos_min = puntos (last (array_sort por_puntos b))\<rparr>) \<and>
         length (de_longitud n (palabras (data r))) = min 10 (length b) \<and>
         de_longitud n (palabras (data r)) = take 10 (array_sort por_puntos b) \<and>
         dom (estadisticas (data r)) \<subseteq> clave ` {3, 4, 5, 6, 7}"
proof -
  from assms(1) have r: "r = ordenarYLimitarResultados (agrupadas ps)"
    by (simp add: procesarPalabras_eq split: if_splits)
  have kept: "de_longitud n (palabras (data r)) = take 10 (array_sort por_puntos b)"
    unfolding r assms(4) using assms(2,3) by (rule de_longitud_palabras)
  then have len: "length (de_longitud n (palabras (data r))) = min 10 (length b)"
    by (simp add: min.commute)
  have est: "estadisticas (data r) (clave n) = (if b = [] then None else Some (resumen b))"
    unfolding r assms(4) using assms(2,3) by (rule est_agrupadas)
  have "dom (estadisticas (data r)) \<subseteq> clave ` {3, 4, 5, 6, 7}"
  proof
    fix k assume "k \<in> dom (estadisticas (data r))"
    then have "estadisticas (data r) k \<noteq> None" by auto
    show "k \<in> clave ` {3, 4, 5, 6, 7}"
    proof (rule ccontr)
      assume "k \<notin> clave ` {3, 4, 5, 6, 7}"
      from est_agrupadas_otra[OF this, of ps] \<open>estadisticas (data r) k \<noteq> None\<close>
      show False by (simp add: r)
    qed
  qed
  with kept len est show ?thesis by (simp add: resumen_eq)
qed

lemma hd_sort_Max:
  assumes "b \<noteq> []"
  shows "puntos (hd (array_sort por_puntos b)) = Max (puntos ` set b)"
proof -
  let ?s = "array_sort por_puntos b"
  from assms have ne: "?s \<noteq> []" by (rule array_sort_nonempty)
  have srt: "sorted_wrt (\<lambda>a b. puntos b \<le> puntos a) ?s" by (rule sorted_desc_array_sort)
  have "\<forall>e \<in> set ?s. puntos e \<le> puntos (hd ?s)"
    using ne srt by (cases ?s) auto
  then have "\<forall>e \<in> set b. puntos e \<le> puntos (hd ?s)" by simp
  moreover have "hd ?s \<in> set b" using ne hd_in_set[of ?s] by simp
  ultimately show ?thesis by (intro Max_eqI[symmetric]) auto
qed

lemma last_sort_Min:
  assumes "b \<noteq> []"
  shows "puntos (last (array_sort por_puntos b)) = Min (puntos ` set b)"
proof -
  let ?s = "array_sort por_puntos b"
  from assms have ne: "?s \<noteq> []" by (rule array_sort_nonempty)
  have srt: "sorted_wrt (\<lambda>a b. puntos b \<le> puntos a) ?s" by (rule sorted_desc_array_sort)
  have "\<forall>e \<in> set ?s. puntos (last ?s) \<le> puntos e"
    using ne srt by (cases ?s rule: rev_cases) (auto simp: sorted_wrt_append)
  then have "\<forall>e \<in> set b. puntos (last ?s) \<le> puntos e" by simp
  moreover have "last ?s \<in> set b" using ne last_in_set[of ?s] by simp
  ultimately show ?thesis by (intro Min_eqI[symmetric]) auto
qed

lemma top_above_rest:
  assumes "distinct (map puntos b)"
    and "e \<in> set b" and "e \<notin> set (take k (array_sort por_puntos b))"
    and "t \<in> set (take k (array_sort por_puntos b))"
  shows "puntos e < puntos t"
proof -
  let ?s = "array_sort por_puntos b"
  have split: "?s = take k ?s @ drop k ?s" by simp
  have "e \<in> set ?s" using assms(2) by simp
  with assms(3) have e: "e \<in> set (drop k ?s)"
    by (metis split set_append Un_iff)
  have "sorted_wrt (\<lambda>a b. puntos b \<le> puntos a) (take k ?s @ drop k ?s)"
    using sorted_desc_array_sort[of b] by simp
  with e assms(4) have le: "puntos e \<le> puntos t"
    unfolding sorted_wrt_append by blast
  have "mset (map puntos ?s) = mset (map puntos b)"
    by (simp add: mset_array_sort)
  with assms(1) have "distinct (map puntos ?s)"
    by (metis distinct_count_atmost_1 set_mset_mset)
  then have "distinct (map puntos (take k ?s) @ map puntos (drop k ?s))"
    by (metis split map_append)
  with e assms(4) have "puntos e \<noteq> puntos t" by auto
  with le show ?thesis by simp
qed

lemma entradas_codificar: "entradas (map codificar es) = es"
  by (induction es) (simp_all add: codificar_def)

lemma en_rango_codificar:
  "list_all en_rango (map codificar es) =
     list_all (\<lambda>e. 3 \<le> length (palabra e) \<and> length (palabra e) \<le> 7) es"
  by (induction es) (simp_all add: codificar_def en_rango_def)

lemma top_top: "take 10 (array_sort por_puntos (take 10 (array_sort por_puntos xs))) =
  take 10 (array_sort por_puntos xs)"
  by (simp add: sort_take_sort)

lemma reordenar_palabras:
  "palabras (data (ordenarYLimitarResultados (agrupadas
      (map codificar (palabras (data (ordenarYLimitarResultados (agrupadas ps))))))))
   = palabras (data (ordenarYLimitarResultados (agrupadas ps)))"
proof -
  let ?W = "palabras (data (ordenarYLimitarResultados (agrupadas ps)))"
  have "palabras (data (ordenarYLimitarResultados (agrupadas (map codificar ?W)))) =
    array_sort por_puntos
         (concat (map (\<lambda>n. take 10 (array_sort por_puntos (de_longitud n ?W))) [3, 4, 5, 6, 7]))"
    by (simp only: palabras_agrupadas entradas_codificar)
  also have "\<dots> = array_sort por_puntos
         (concat (map (\<lambda>n. take 10 (array_sort por_puntos (de_longitud n (entradas ps)))) [3, 4, 5, 6, 7]))"
    by (simp add: de_longitud_palabras top_top)
  also have "\<dots> = ?W" by (simp only: palabras_agrupadas)
  finally show ?thesis .
qed

lemma reordenar_mejores:
  assumes n: "3 \<le> n" "n \<le> 7"
  shows "map_option mejores (estadisticas (data (ordenarYLimitarResultados (agrupadas
      (map codificar (palabras (data (ordenarYLimitarResultados (agrupadas ps)))))))) (clave n))
    = map_option mejores (estadisticas (data (ordenarYLimitarResultados (agrupadas ps))) (clave n))"
proof -
  let ?b = "de_longitud n (entradas ps)"
  let ?t = "take 10 (array_sort por_puntos ?b)"
  have w: "de_longitud n (entradas (map codificar
      (palabras (data (ordenarYLimitarResultados (agrupadas ps)))))) = ?t"
    unfolding entradas_codificar using n by (rule de_longitud_palabras)
  have e: "(?t = []) = (?b = [])"
    by (metis array_sort_nonempty take_eq_Nil zero_neq_numeral take_Nil length_0_conv length_array_sort)
  have m: "min 10 (length ?t) = min 10 (length ?b)" by simp
  show ?thesis
    unfolding est_agrupadas[OF n] w
    using e m by (simp add: resumen_eq)
qed

lemma reordenar_total_antes:
  "total_antes_filtro (data (ordenarYLimitarResultados (agrupadas
      (map codificar (palabras (data (ordenarYLimitarResultados (agrupadas ps))))))))
   = length (palabras (data (ordenarYLimitarResultados (agrupadas ps))))"
proof -
  let ?W = "palabras (data (ordenarYLimitarResultados (agrupadas ps)))"
  have "total_antes_filtro (data (ordenarYLimitarResultados (agrupadas (map codificar ?W)))) =
      sum_list (map (\<lambda>n. length (de_longitud n ?W)) [3, 4, 5, 6, 7])"
    by (simp only: total_antes_agrupadas entradas_codificar)
  also have "\<dots> = sum_list (map (\<lambda>n. length (take 10 (array_sort por_puntos
      (de_longitud n (entradas ps))))) [3, 4, 5, 6, 7])"
    by (simp add: de_longitud_palabras)
  also have "\<dots> = length ?W"
    by (simp add: palabras_agrupadas)
  finally show ?thesis .
qed

section \<open>Properties of the validation and of the search pipeline\<close>

lemma isArray_iff: "isArray v \<and> length (elementos v) = n \<longleftrightarrow> (\<exists>xs. v = JArray xs \<and> length xs = n)"
  by (cases v) auto

lemma validar_filas_casos:
  "validar_filas filas i = Inr () \<or> (\<exists>m. validar_filas filas i = Inl (Error m))"
  by (induction filas i rule: validar_filas.induct) (auto simp: Let_def)

lemma validar_filas_ok:
  "validar_filas filas i = Inr () \<longleftrightarrow>
     (\<forall>j < length filas. \<exists>fila. filas ! j = JArray fila \<and> length fila = i + j + 3)"
proof (induction filas i rule: validar_filas.induct)
  case (1 i)
  then show ?case by simp
next
  case (2 fila resto i)
  have "(\<forall>j < length (fila # resto). \<exists>f. (fila # resto) ! j = JArray f \<and> length f = i + j + 3)
     \<longleftrightarrow> (\<exists>f. fila = JArray f \<and> length f = i + 3) \<and>
         (\<forall>j < length resto. \<exists>f. resto ! j = JArray f \<and> length f = (i + 1) + j + 3)"
    by (auto simp: All_less_Suc2 nth_Cons split: nat.splits)
  moreover have "(\<exists>f. fila = JArray f \<and> length f = i + 3) \<longleftrightarrow>
     \<not> (\<not> isArray fila \<or> length (elementos fila) \<noteq> i + 3)"
    using isArray_iff[of fila "i + 3"] by auto
  ultimately show ?case using 2 by (auto simp: Let_def)
qed

lemma validarParametros_casos:
  "validarParametros l p r = Inr () \<or> (\<exists>m. validarParametros l p r = Inl (Error m))"
  using validar_filas_casos[of "elementos p" 0]
  by (auto simp: validarParametros_def split: sum.splits js_value.splits)

lemma ronda_ok:
  assumes "r \<noteq> JNumber NaN"
  shows "(\<exists>x. r = JNumber x \<and> \<not> menor_que x 1 \<and> \<not> mayor_que x 5) \<longleftrightarrow>
         (\<exists>v. r = JNumber (Finito v) \<and> 1 \<le> v \<and> v \<le> 5)"
proof
  assume "\<exists>x. r = JNumber x \<and> \<not> menor_que x 1 \<and> \<not> mayor_que x 5"
  then obtain x where x: "r = JNumber x" "\<not> menor_que x 1" "\<not> mayor_que x 5" by blast
  with assms show "\<exists>v. r = JNumber (Finito v) \<and> 1 \<le> v \<and> v \<le> 5"
    by (cases x) auto
next
  assume "\<exists>v. r = JNumber (Finito v) \<and> 1 \<le> v \<and> v \<le> 5"
  then show "\<exists>x. r = JNumber x \<and> \<not> menor_que x 1 \<and> \<not> mayor_que x 5" by force
qed

lemma validarParametros_ok:
  "validarParametros l p r = Inr () \<longleftrightarrow>
     (\<exists>xs. l = JArray xs \<and> length xs = 7) \<and>
     (\<exists>filas. p = JArray filas \<and> length filas = 5 \<and>
        (\<forall>i < 5. \<exists>fila. filas ! i = JArray fila \<and> length fila = i + 3)) \<and>
     (\<exists>x. r = JNumber x \<and> \<not> menor_que x 1 \<and> \<not> mayor_que x 5)"
proof -
  have r: "(case r of JNumber x \<Rightarrow> if menor_que x 1 \<or> mayor_que x 5 then Inl (Error m) else Inr ()
            | _ \<Rightarrow> Inl (Error m)) = Inr () \<longleftrightarrow>
         (\<exists>x. r = JNumber x \<and> \<not> menor_que x 1 \<and> \<not> mayor_que x 5)" for m
    by (cases r) auto
  have p: "(isArray p \<and> length (elementos p) = 5 \<and> validar_filas (elementos p) 0 = Inr ()) \<longleftrightarrow>
      (\<exists>filas. p = JArray filas \<and> length filas = 5 \<and>
        (\<forall>i < 5. \<exists>fila. filas ! i = JArray fila \<and> length fila = i + 3))"
    by (cases p) (auto simp: validar_filas_ok)
  have l: "(isArray l \<and> length (elementos l) = 7) \<longleftrightarrow> (\<exists>xs. l = JArray xs \<and> length xs = 7)"
    by (rule isArray_iff)
  have "validarParametros l p r = Inr () \<longleftrightarrow>
      (isArray l \<and> length (elementos l) = 7) \<and>
      (isArray p \<and> length (elementos p) = 5 \<and> validar_filas (elementos p) 0 = Inr ()) \<and>
      (\<exists>x. r = JNumber x \<and> \<not> menor_que x 1 \<and> \<not> mayor_que x 5)"
    unfolding validarParametros_def
    using validar_filas_casos[of "elementos p" 0] r
    by (auto split: sum.splits)
  then show ?thesis unfolding l p .
qed


lemma normalizar_textos: "normalizar pf (map JString ls) = Inr (map (toUpperCase pf) ls)"
  by (induction ls) simp_all

lemma buscar_invalido:
  "validarParametros l p r = Inl e \<Longrightarrow> buscarPalabras pf l p r api = (Inl e, [])"
  by (simp add: buscarPalabras_def)

lemma buscar_pedidas:
  assumes "validarParametros l p r = Inr ()" and "l = JArray (map JString ls)"
  shows "snd (buscarPalabras pf l p r api) =
     [api @ ''?letras='' @ join '','' (map (toUpperCase pf) ls) @ ''&puntos_extra='' @
      encodeURIComponent pf (stringify pf p) @ ''&ronda='' @ a_texto pf r]"
  using assms
  by (simp add: buscarPalabras_def normalizar_textos obtenerPalabrasAPI_def Let_def
      split: sum.splits prod.splits)

lemma normalizar_no_textos:
  "\<not> (\<exists>ls. xs = map JString ls) \<Longrightarrow> normalizar pf xs = Inl TypeError"
proof (induction pf xs rule: normalizar.induct)
  case (1 pf)
  then show ?case by simp
next
  case (2 pf l resto)
  have "\<not> (\<exists>ls. resto = map JString ls)"
  proof
    assume "\<exists>ls. resto = map JString ls"
    then obtain ls where "resto = map JString ls" by blast
    then have "JString l # resto = map JString (l # ls)" by simp
    then have "\<exists>ls. JString l # resto = map JString ls" by (rule exI)
    with 2(2) show False by simp
  qed
  with 2(1) show ?case by simp
qed simp_all

lemma buscar_sin_textos:
  assumes "validarParametros l p r = Inr ()" and "\<not> (\<exists>ls. l = JArray (map JString ls))"
  shows "buscarPalabras pf l p r api = (Inl TypeError, [])"
proof -
  from assms(1) obtain xs where l: "l = JArray xs"
    unfolding validarParametros_ok by blast
  with assms(2) have "\<not> (\<exists>ls. xs = map JString ls)" by simp
  then have "normalizar pf (elementos l) = Inl TypeError"
    unfolding l by (simp add: normalizar_no_textos)
  with assms(1) show ?thesis by (simp add: buscarPalabras_def)
qed

section \<open>Properties of the service worker\<close>

lemma fold_caches_delete:
  "fold caches_delete ks cs = filter (\<lambda>(k, _). k \<notin> set ks) cs"
proof (induction ks arbitrary: cs)
  case Nil
  then show ?case by simp
next
  case (Cons k ks)
  have "filter (\<lambda>(k', _). k' \<notin> set ks) (filter (\<lambda>(k', _). k' \<noteq> k) cs) =
        filter (\<lambda>(k', _). k' \<notin> set (k # ks)) cs"
    by (induction cs) auto
  with Cons show ?case by (simp add: caches_delete_def)
qed

lemma caches_activate:
  "caches (activate_listener v w) =
     filter (\<lambda>(k, _). k = CACHE_NAME v \<or> k = CACHE_NAME_EXTERNAL v) (caches w)"
proof -
  have "filter (\<lambda>(k, _). k \<notin> set (filter (\<lambda>key. key \<noteq> CACHE_NAME v \<and> key \<noteq> CACHE_NAME_EXTERNAL v)
            (caches_keys (caches w)))) (caches w) =
        filter (\<lambda>(k, _). k = CACHE_NAME v \<or> k = CACHE_NAME_EXTERNAL v) (caches w)"
    by (rule filter_cong) (force simp: caches_keys_def)+
  then show ?thesis
    by (simp add: activate_listener_def Let_def fold_caches_delete)
qed

lemma keys_activate:
  "set (caches_keys (caches (activate_listener v w))) =
     set (caches_keys (caches w)) \<inter> {CACHE_NAME v, CACHE_NAME_EXTERNAL v}"
  unfolding caches_activate caches_keys_def by force

lemma map_of_filter_key:
  "P n \<Longrightarrow> map_of (filter (\<lambda>(k, _). P k) cs) n = map_of cs n"
  by (induction cs) auto

lemma contenido_activate:
  "n = CACHE_NAME v \<or> n = CACHE_NAME_EXTERNAL v \<Longrightarrow>
   map_of (caches (activate_listener v w)) n = map_of (caches w) n"
  unfolding caches_activate
  by (rule map_of_filter_key[where P = "\<lambda>k. k = CACHE_NAME v \<or> k = CACHE_NAME_EXTERNAL v"])

lemma keys_cache_put [simp]: "caches_keys (cache_put name u r cs) = caches_keys cs"
  by (induction cs) (auto simp: caches_keys_def cache_put_def)

lemma keys_fold_put [simp]:
  "caches_keys (fold (\<lambda>(u, r). cache_put name u r) rs cs) = caches_keys cs"
  by (induction rs arbitrary: cs) (auto simp: split_def)

lemma keys_addAll [simp]:
  "caches_keys (caches (snd (addAll env name urls w))) = caches_keys (caches w)"
  by (simp add: addAll_def Let_def split: option.splits)

lemma keys_caches_open:
  "set (caches_keys (caches_open name cs)) = insert name (set (caches_keys cs))"
  by (auto simp: caches_open_def caches_keys_def)

lemma keys_install:
  "set (caches_keys (caches (snd (install_listener v env w)))) =
     set (caches_keys (caches w)) \<union> {CACHE_NAME v, CACHE_NAME_EXTERNAL v}"
proof -
  let ?w1 = "w\<lparr>caches := caches_open (CACHE_NAME v) (caches w)\<rparr>"
  let ?w2 = "snd (addAll env (CACHE_NAME v) PRECACHE_URLS ?w1)"
  let ?w3 = "?w2\<lparr>caches := caches_open (CACHE_NAME_EXTERNAL v) (caches ?w2)\<rparr>"
  let ?w4 = "snd (addAll env (CACHE_NAME_EXTERNAL v) EXTERNAL_URLS ?w3)"
  have "caches (snd (install_listener v env w)) = caches ?w4"
    by (simp add: install_listener_def Let_def split_def)
  then show ?thesis
    by (simp add: keys_caches_open) blast
qed

lemma nombres_distintos:
  assumes "v1 \<noteq> v2" "v1 \<noteq> ''external-'' @ v2" "v2 \<noteq> ''external-'' @ v1"
  shows "CACHE_NAME v1 \<noteq> CACHE_NAME v2" "CACHE_NAME v1 \<noteq> CACHE_NAME_EXTERNAL v2"
    "CACHE_NAME_EXTERNAL v1 \<noteq> CACHE_NAME v2" "CACHE_NAME_EXTERNAL v1 \<noteq> CACHE_NAME_EXTERNAL v2"
  using assms by (auto simp: CACHE_NAME_def CACHE_NAME_EXTERNAL_def)

lemma relevo:
  assumes "CACHE_NAME v1 \<noteq> CACHE_NAME v2" "CACHE_NAME v1 \<noteq> CACHE_NAME_EXTERNAL v2"
    "CACHE_NAME_EXTERNAL v1 \<noteq> CACHE_NAME v2" "CACHE_NAME_EXTERNAL v1 \<noteq> CACHE_NAME_EXTERNAL v2"
    and "w1 = snd (install_listener v1 env1 w)"
    and "w2 = snd (install_listener v2 env2 w1)"
    and "w3 = activate_listener v2 w2"
  shows "{CACHE_NAME v1, CACHE_NAME_EXTERNAL v1} \<subseteq> set (caches_keys (caches w2)) \<and>
         CACHE_NAME v1 \<notin> set (caches_keys (caches w3)) \<and>
         CACHE_NAME_EXTERNAL v1 \<notin> set (caches_keys (caches w3)) \<and>
         set (caches_keys (caches w3)) = {CACHE_NAME v2, CACHE_NAME_EXTERNAL v2} \<and>
         map_of (caches w3) (CACHE_NAME v2) = map_of (caches w2) (CACHE_NAME v2) \<and>
         map_of (caches w3) (CACHE_NAME_EXTERNAL v2) = map_of (caches w2) (CACHE_NAME_EXTERNAL v2)"
proof -
  have k2: "set (caches_keys (caches w2)) =
      set (caches_keys (caches w)) \<union> {CACHE_NAME v1, CACHE_NAME_EXTERNAL v1} \<union>
      {CACHE_NAME v2, CACHE_NAME_EXTERNAL v2}"
    unfolding assms(5,6) keys_install ..
  have k3: "set (caches_keys (caches w3)) =
      set (caches_keys (caches w2)) \<inter> {CACHE_NAME v2, CACHE_NAME_EXTERNAL v2}"
    unfolding assms(7) by (rule keys_activate)
  have c1: "map_of (caches w3) (CACHE_NAME v2) = map_of (caches w2) (CACHE_NAME v2)"
    unfolding assms(7) by (rule contenido_activate) simp
  have c2: "map_of (caches w3) (CACHE_NAME_EXTERNAL v2) = map_of (caches w2) (CACHE_NAME_EXTERNAL v2)"
    unfolding assms(7) by (rule contenido_activate) simp
  from k2 k3 assms(1-4) c1 c2 show ?thesis by auto
qed

lemma caches_match_open:
  "caches_match u (caches_open name cs) = caches_match u cs"
proof -
  have "caches_match u (cs @ [(name, [])]) = caches_match u cs"
    by (induction cs) (auto split: option.splits)
  then show ?thesis by (simp add: caches_open_def)
qed

lemma caches_match_put_nuevo:
  "caches_match u cs = None \<Longrightarrow> name \<in> set (caches_keys cs) \<Longrightarrow>
   caches_match u (cache_put name u r cs) = Some r"
proof (induction cs)
  case Nil
  then show ?case by (simp add: caches_keys_def)
next
  case (Cons kc cs)
  obtain k c where kc: "kc = (k, c)" by (cases kc)
  from Cons.prems(1) have none: "map_of c u = None" "caches_match u cs = None"
    by (auto simp: kc split: option.splits)
  show ?case
  proof (cases "k = name")
    case True
    then show ?thesis by (simp add: kc cache_put_def)
  next
    case False
    with Cons.prems(2) have "name \<in> set (caches_keys cs)" by (simp add: kc caches_keys_def)
    from Cons.IH[OF none(2) this] False none(1) show ?thesis
      by (simp add: kc cache_put_def)
  qed
qed

lemma caches_match_put_alguno:
  "name \<in> set (caches_keys cs) \<Longrightarrow> caches_match u (cache_put name u r cs) \<noteq> None"
proof (induction cs)
  case Nil
  then show ?case by (simp add: caches_keys_def)
next
  case (Cons kc cs)
  obtain k c where kc: "kc = (k, c)" by (cases kc)
  show ?case
  proof (cases "k = name")
    case True
    then show ?thesis by (simp add: kc cache_put_def)
  next
    case False
    with Cons.prems have "name \<in> set (caches_keys cs)" by (simp add: kc caches_keys_def)
    from Cons.IH[OF this] False show ?thesis
      by (auto simp: kc cache_put_def split: option.splits)
  qed
qed

lemma nombre_abierto: "name \<in> set (caches_keys (caches_open name cs))"
  by (simp add: caches_open_def caches_keys_def)

lemma completar_ultimo:
  assumes "pendientes w = ps @ [(name, u, r)]"
  shows "caches_match u (caches (completar w)) \<noteq> None"
    and "ps = [] \<Longrightarrow> caches_match u (caches w) = None \<Longrightarrow>
         caches_match u (caches (completar w)) = Some r"
proof -
  let ?cs = "fold (\<lambda>(name, u, r) cs. cache_put name u r (caches_open name cs)) ps (caches w)"
  have c: "caches (completar w) = cache_put name u r (caches_open name ?cs)"
    by (simp add: completar_def assms)
  show "caches_match u (caches (completar w)) \<noteq> None"
    unfolding c by (rule caches_match_put_alguno) (rule nombre_abierto)
  show "caches_match u (caches (completar w)) = Some r"
    if "ps = []" "caches_match u (caches w) = None"
    unfolding c using that
    by (simp add: caches_match_put_nuevo caches_match_open nombre_abierto)
qed

lemma put_en_su_cache:
  "name \<in> set (caches_keys cs) \<Longrightarrow>
   \<exists>c. map_of (cache_put name u r cs) name = Some c \<and> map_of c u = Some r"
proof (induction cs)
  case Nil
  then show ?case by (simp add: caches_keys_def)
next
  case (Cons kc cs)
  obtain k c where kc: "kc = (k, c)" by (cases kc)
  show ?case
  proof (cases "k = name")
    case True
    then show ?thesis by (simp add: kc cache_put_def)
  next
    case False
    with Cons.prems have "name \<in> set (caches_keys cs)" by (simp add: kc caches_keys_def)
    from Cons.IH[OF this] False show ?thesis
      by (simp add: kc cache_put_def)
  qed
qed

lemma completar_en_su_cache:
  assumes "pendientes w = ps @ [(name, u, r)]"
  shows "\<exists>c. map_of (caches (completar w)) name = Some c \<and> map_of c u = Some r"
proof -
  let ?cs = "fold (\<lambda>(name, u, r) cs. cache_put name u r (caches_open name cs)) ps (caches w)"
  have c: "caches (completar w) = cache_put name u r (caches_open name ?cs)"
    by (simp add: completar_def assms)
  show ?thesis unfolding c by (rule put_en_su_cache) (rule nombre_abierto)
qed

lemma externo_acierto:
  assumes "\<not> (js_includes (pathname rq) ''/api/'' \<or> js_includes (hostname rq) ''api.'')"
    and "origin rq \<noteq> location_origin env"
    and "caches_match (url rq) (caches w) = Some c"
  shows "fetch_listener v env rq w = (Inr c, w)"
  using assms by (simp add: fetch_listener_def)

lemma externo_fallo:
  assumes "\<not> (js_includes (pathname rq) ''/api/'' \<or> js_includes (hostname rq) ''api.'')"
    and "origin rq \<noteq> location_origin env"
    and "caches_match (url rq) (caches w) = None"
  shows "fetch_listener v env rq w =
     (case red env (url rq) of
        None \<Rightarrow> (Inl NetworkFailure, w\<lparr>fetched := fetched w @ [url rq]\<rparr>)
      | Some r \<Rightarrow>
          if status r = 200
          then (Inr r, w\<lparr>fetched := fetched w @ [url rq],
                          pendientes := pendientes w @ [(CACHE_NAME_EXTERNAL v, url rq, r)]\<rparr>)
          else (Inr r, w\<lparr>fetched := fetched w @ [url rq]\<rparr>))"
  using assms by (simp add: fetch_listener_def)

lemma keys_open_list:
  "caches_keys (caches_open name cs) =
     (if name \<in> set (caches_keys cs) then caches_keys cs else caches_keys cs @ [name])"
  by (simp add: caches_open_def caches_keys_def)

lemma keys_install_list:
  "caches_keys (caches (snd (install_listener v env w))) =
     caches_keys (caches_open (CACHE_NAME_EXTERNAL v) (caches_open (CACHE_NAME v) (caches w)))"
  by (simp add: install_listener_def Let_def split_def keys_open_list)

section \<open>The claims about ranking\<close>

text \<open>
  C1, as the specification states it, fails: for the candidates
  \<open>[{A:5},{AB:7},{AAA:3},{AAA:9}]\<close> the look-up \<open>palabrasPorLongitud[1]\<close> is
  \<open>undefined\<close>, and the call of \<open>push\<close> on it throws a TypeError at the first item.
  Nothing is dropped and no result is returned.
\<close>

theorem procesarPalabras_fuera_de_rango:
  "procesarPalabras [[(''A'', 5)], [(''AB'', 7)], [(''AAA'', 3)], [(''AAA'', 9)]] = Inl TypeError"
  by (simp add: procesarPalabras_eq en_rango_def)

text \<open>
  C1, amended. When every candidate word has a length from 3 to 7, the ranking operation
  returns, and its result holds only words of lengths 3 to 7. When some candidate has
  another length (or is an object without a key), the operation throws a TypeError: no
  word is dropped silently. For the candidates \<open>[{AAA:3},{AAA:9}]\<close> the result is
  \<open>[AAA:9, AAA:3]\<close> with \<open>longitud_3 = {total:2, mejores:2, puntos_max:9, puntos_min:3}\<close>.
\<close>

theorem procesarPalabras_rango:
  "(list_all en_rango ps \<longrightarrow>
      (\<exists>r. procesarPalabras ps = Inr r \<and>
           list_all (\<lambda>e. 3 \<le> length (palabra e) \<and> length (palabra e) \<le> 7)
             (palabras (data r)))) \<and>
   (\<not> list_all en_rango ps \<longrightarrow> procesarPalabras ps = Inl TypeError) \<and>
   (\<exists>r. procesarPalabras [[(''AAA'', 3)], [(''AAA'', 9)]] = Inr r \<and>
        palabras (data r) = [\<lparr>palabra = ''AAA'', puntos = 9\<rparr>, \<lparr>palabra = ''AAA'', puntos = 3\<rparr>] \<and>
        estadisticas (data r) ''longitud_3'' =
          Some \<lparr>estadistica.total = 2, mejores = 2, puntos_max = 9, puntos_min = 3\<rparr>)"
proof (intro conjI impI)
  assume "list_all en_rango ps"
  then show "\<exists>r. procesarPalabras ps = Inr r \<and>
           list_all (\<lambda>e. 3 \<le> length (palabra e) \<and> length (palabra e) \<le> 7)
             (palabras (data r))"
    using rango_palabras[of ps] by (simp add: procesarPalabras_eq)
next
  assume "\<not> list_all en_rango ps"
  then show "procesarPalabras ps = Inl TypeError" by (simp add: procesarPalabras_eq)
next
  show "\<exists>r. procesarPalabras [[(''AAA'', 3)], [(''AAA'', 9)]] = Inr r \<and>
        palabras (data r) = [\<lparr>palabra = ''AAA'', puntos = 9\<rparr>, \<lparr>palabra = ''AAA'', puntos = 3\<rparr>] \<and>
        estadisticas (data r) ''longitud_3'' =
          Some \<lparr>estadistica.total = 2, mejores = 2, puntos_max = 9, puntos_min = 3\<rparr>"
    by (simp add: procesarPalabras_def buckets_vacios_def push_entry_def
        ordenarYLimitarResultados_def por_puntos_def clave_def string_of_nat.simps
        digit_def Let_def)
qed

text \<open>The amended C1 at two concrete inputs, one in range and one not.\<close>

theorem procesarPalabras_rango_witness:
  "list_all en_rango [[(''SOL'', 4)], [(''CASA'', 8)]] \<and>
   (\<exists>r. procesarPalabras [[(''SOL'', 4)], [(''CASA'', 8)]] = Inr r \<and>
      list_all (\<lambda>e. 3 \<le> length (palabra e) \<and> length (palabra e) \<le> 7) (palabras (data r))) \<and>
   \<not> list_all en_rango [[(''SOL'', 4)], [(''AB'', 7)]] \<and>
   procesarPalabras [[(''SOL'', 4)], [(''AB'', 7)]] = Inl TypeError"
proof -
  have a: "list_all en_rango [[(''SOL'', 4)], [(''CASA'', 8)]]"
    by (simp add: en_rango_def)
  have b: "\<not> list_all en_rango [[(''SOL'', 4)], [(''AB'', 7)]]"
    by (simp add: en_rango_def)
  from a b procesarPalabras_rango[of "[[(''SOL'', 4)], [(''CASA'', 8)]]"]
    procesarPalabras_rango[of "[[(''SOL'', 4)], [(''AB'', 7)]]"]
  show ?thesis by blast
qed

text \<open>
  C3, as the specification states it, fails. With fifteen words of length 4 scored 1 to
  15, the ten words kept score 15 down to 6, so the tenth-highest score is 6; but
  \<open>puntos_min\<close> is read from the last entry of the whole sorted bucket and is 1.
\<close>

theorem puntos_min_decimo_counterexample:
  "(case procesarPalabras quince of
      Inl _ \<Rightarrow> False
    | Inr r \<Rightarrow>
        map puntos (palabras (data r)) = [15, 14, 13, 12, 11, 10, 9, 8, 7, 6] \<and>
        estadisticas (data r) ''longitud_4'' =
          Some \<lparr>estadistica.total = 15, mejores = 10, puntos_max = 15, puntos_min = 1\<rparr>)"
  by (simp add: quince_def procesarPalabras_def buckets_vacios_def push_entry_def
      ordenarYLimitarResultados_def por_puntos_def clave_def string_of_nat.simps
      digit_def Let_def)

text \<open>
  C3, amended. Whenever the ranking returns \<open>r\<close> and the bucket \<open>b\<close> of the words of
  length 4 holds exactly 15 words with pairwise distinct scores: the words of length 4
  that are returned are exactly the first 10 of \<open>b\<close> sorted by descending score, that
  is, 10 different words of \<open>b\<close> such that every word of \<open>b\<close> that is not returned
  scores below every one that is; the entry \<open>longitud_4\<close> is \<open>{total: 15, mejores: 10,
  puntos_max:\<close> the highest score of \<open>b\<close>, \<open>puntos_min:\<close> the lowest score of \<open>b\<close>\<open>}\<close>
  (the fifteenth-highest, not the tenth).
\<close>

theorem quince_de_cuatro:
  assumes "procesarPalabras ps = Inr r"
    and "b = de_longitud 4 (entradas ps)"
    and "length b = 15"
    and "distinct (map puntos b)"
    and "kept = de_longitud 4 (palabras (data r))"
  shows "kept = take 10 (array_sort por_puntos b) \<and>
         length kept = 10 \<and> distinct kept \<and> distinct (map puntos kept) \<and>
         set kept \<subseteq> set b \<and>
         (\<forall>e \<in> set b - set kept. \<forall>t \<in> set kept. puntos e < puntos t) \<and>
         estadisticas (data r) ''longitud_4'' =
           Some \<lparr>estadistica.total = 15, mejores = 10,
                 puntos_max = Max (puntos ` set b), puntos_min = Min (puntos ` set b)\<rparr>"
proof -
  have ne: "b \<noteq> []" using assms(3) by auto
  have c4: "clave 4 = ''longitud_4''"
    by (simp add: clave_def string_of_nat.simps digit_def)
  from resultado_bucket[OF assms(1) _ _ assms(2)]
  have kept: "kept = take 10 (array_sort por_puntos b)"
    and est: "estadisticas (data r) ''longitud_4'' =
              Some \<lparr>estadistica.total = length b,
                    mejores = length (de_longitud 4 (palabras (data r))),
                    puntos_max = puntos (hd (array_sort por_puntos b)),
                    puntos_min = puntos (last (array_sort por_puntos b))\<rparr>"
    and len: "length (de_longitud 4 (palabras (data r))) = min 10 (length b)"
    using ne by (simp_all add: c4 assms(5))
  have "mset (map puntos (array_sort por_puntos b)) = mset (map puntos b)"
    by (simp add: mset_array_sort)
  with assms(4) have "distinct (map puntos (array_sort por_puntos b))"
    by (metis distinct_count_atmost_1 set_mset_mset)
  then have "distinct (take 10 (map puntos (array_sort por_puntos b)))"
    by (rule distinct_take)
  then have dp: "distinct (map puntos kept)" unfolding kept by (simp add: take_map)
  then have dk: "distinct kept" by (simp add: distinct_map)
  have "length kept = 10" using len assms(3,5) by simp
  moreover note kept dk dp
  moreover have "set kept \<subseteq> set b" unfolding kept by (rule set_top_subset)
  moreover have "\<forall>e \<in> set b - set kept. \<forall>t \<in> set kept. puntos e < puntos t"
    unfolding kept using top_above_rest[OF assms(4)] by blast
  moreover have "estadisticas (data r) ''longitud_4'' =
           Some \<lparr>estadistica.total = 15, mejores = 10,
                 puntos_max = Max (puntos ` set b), puntos_min = Min (puntos ` set b)\<rparr>"
    using est len assms(3) ne by (simp add: hd_sort_Max last_sort_Min)
  ultimately show ?thesis by blast
qed


text \<open>The amended C3 at the fifteen candidates above.\<close>

theorem quince_de_cuatro_witness:
  "procesarPalabras quince = Inr (ordenarYLimitarResultados (agrupadas quince)) \<and>
   length (de_longitud 4 (entradas quince)) = 15 \<and>
   distinct (map puntos (de_longitud 4 (entradas quince))) \<and>
   map puntos (de_longitud 4 (palabras (data (ordenarYLimitarResultados (agrupadas quince))))) =
     [15, 14, 13, 12, 11, 10, 9, 8, 7, 6] \<and>
   estadisticas (data (ordenarYLimitarResultados (agrupadas quince))) ''longitud_4'' =
     Some \<lparr>estadistica.total = 15, mejores = 10, puntos_max = 15, puntos_min = 1\<rparr>"
proof -
  have run: "procesarPalabras quince = Inr (ordenarYLimitarResultados (agrupadas quince))"
    by (simp add: procesarPalabras_eq quince_def en_rango_def)
  have len: "length (de_longitud 4 (entradas quince)) = 15"
    by (simp add: quince_def de_longitud_def)
  have dis: "distinct (map puntos (de_longitud 4 (entradas quince)))"
    by (simp add: quince_def de_longitud_def)
  have mx: "Max (puntos ` set (de_longitud 4 (entradas quince))) = 15"
    by (simp add: quince_def de_longitud_def)
  have mn: "Min (puntos ` set (de_longitud 4 (entradas quince))) = 1"
    by (simp add: quince_def de_longitud_def)
  have top: "map puntos (take 10 (array_sort por_puntos (de_longitud 4 (entradas quince)))) =
      [15, 14, 13, 12, 11, 10, 9, 8, 7, 6]"
    by (simp add: quince_def de_longitud_def por_puntos_def)
  note t = quince_de_cuatro[OF run refl len dis refl]
  from t have "de_longitud 4 (palabras (data (ordenarYLimitarResultados (agrupadas quince)))) =
      take 10 (array_sort por_puntos (de_longitud 4 (entradas quince)))"
    by blast
  with top have k: "map puntos (de_longitud 4 (palabras (data (ordenarYLimitarResultados (agrupadas quince))))) =
     [15, 14, 13, 12, 11, 10, 9, 8, 7, 6]"
    by simp
  from t have "estadisticas (data (ordenarYLimitarResultados (agrupadas quince))) ''longitud_4'' =
     Some \<lparr>estadistica.total = 15, mejores = 10,
           puntos_max = Max (puntos ` set (de_longitud 4 (entradas quince))),
           puntos_min = Min (puntos ` set (de_longitud 4 (entradas quince)))\<rparr>"
    by blast
  then have e: "estadisticas (data (ordenarYLimitarResultados (agrupadas quince))) ''longitud_4'' =
     Some \<lparr>estadistica.total = 15, mejores = 10, puntos_max = 15, puntos_min = 1\<rparr>"
    by (simp only: mx mn)
  from run len dis k e show ?thesis by blast
qed

text \<open>
  C4. Whenever the ranking returns a result \<open>r\<close>, and \<open>b\<close> is the bucket of the words
  of length \<open>n\<close> (3 to 7) in their order of arrival: if \<open>b\<close> is empty the statistics have
  no entry under \<open>longitud_n\<close>; otherwise the entry has \<open>total\<close> the size of \<open>b\<close>,
  \<open>mejores\<close> the number of words of length \<open>n\<close> that are returned (at most 10, the
  first 10 of the sorted bucket), \<open>puntos_max\<close> the score of the first and \<open>puntos_min\<close>
  the score of the last entry of the whole sorted bucket. No other key has an entry.
\<close>

theorem estadisticas_por_longitud:
  assumes "procesarPalabras ps = Inr r"
    and "3 \<le> n" and "n \<le> 7"
    and "b = de_longitud n (entradas ps)"
  shows "(b = [] \<longrightarrow> estadisticas (data r) (clave n) = None) \<and>
         (b \<noteq> [] \<longrightarrow>
            estadisticas (data r) (clave n) =
              Some \<lparr>estadistica.total = length b,
                    mejores = length (de_longitud n (palabras (data r))),
                    puntos_max = puntos (hd (array_sort por_puntos b)),
                    puntos_min = puntos (last (array_sort por_puntos b))\<rparr>) \<and>
         length (de_longitud n (palabras (data r))) = min 10 (length b) \<and>
         de_longitud n (palabras (data r)) = take 10 (array_sort por_puntos b) \<and>
         dom (estadisticas (data r)) \<subseteq> clave ` {3, 4, 5, 6, 7}"
  using assms by (rule resultado_bucket)

text \<open>C4 at a concrete input: a bucket of two words and an empty bucket.\<close>

theorem estadisticas_por_longitud_witness:
  "procesarPalabras [[(''SOL'', 4)], [(''CASA'', 8)], [(''MAR'', 6)]] =
     Inr (ordenarYLimitarResultados
       [(3, [\<lparr>palabra = ''SOL'', puntos = 4\<rparr>, \<lparr>palabra = ''MAR'', puntos = 6\<rparr>]),
        (4, [\<lparr>palabra = ''CASA'', puntos = 8\<rparr>]), (5, []), (6, []), (7, [])]) \<and>
   de_longitud 3 (entradas [[(''SOL'', 4)], [(''CASA'', 8)], [(''MAR'', 6)]]) =
     [\<lparr>palabra = ''SOL'', puntos = 4\<rparr>, \<lparr>palabra = ''MAR'', puntos = 6\<rparr>] \<and>
   estadisticas (data (ordenarYLimitarResultados
       [(3, [\<lparr>palabra = ''SOL'', puntos = 4\<rparr>, \<lparr>palabra = ''MAR'', puntos = 6\<rparr>]),
        (4, [\<lparr>palabra = ''CASA'', puntos = 8\<rparr>]), (5, []), (6, []), (7, [])])) (clave 3) =
     Some \<lparr>estadistica.total = 2, mejores = 2, puntos_max = 6, puntos_min = 4\<rparr> \<and>
   de_longitud 5 (entradas [[(''SOL'', 4)], [(''CASA'', 8)], [(''MAR'', 6)]]) = [] \<and>
   estadisticas (data (ordenarYLimitarResultados
       [(3, [\<lparr>palabra = ''SOL'', puntos = 4\<rparr>, \<lparr>palabra = ''MAR'', puntos = 6\<rparr>]),
        (4, [\<lparr>palabra = ''CASA'', puntos = 8\<rparr>]), (5, []), (6, []), (7, [])])) (clave 5) = None"
proof -
  let ?ps = "[[(''SOL'', 4)], [(''CASA'', 8)], [(''MAR'', 6)]]"
  let ?b = "[\<lparr>palabra = ''SOL'', puntos = 4\<rparr>, \<lparr>palabra = ''MAR'', puntos = 6\<rparr>]"
  let ?r = "ordenarYLimitarResultados
       [(3, ?b), (4, [\<lparr>palabra = ''CASA'', puntos = 8\<rparr>]), (5, []), (6, []), (7, [])]"
  have run: "procesarPalabras ?ps = Inr ?r"
    by (simp add: procesarPalabras_def buckets_vacios_def push_entry_def)
  have b: "?b = de_longitud 3 (entradas ?ps)"
    by (simp add: de_longitud_def)
  have c: "[] = de_longitud 5 (entradas ?ps)"
    by (simp add: de_longitud_def)
  have "estadisticas (data ?r) (clave 3) =
      Some \<lparr>estadistica.total = 2, mejores = 2, puntos_max = 6, puntos_min = 4\<rparr>"
    using estadisticas_por_longitud[OF run _ _ b] by (simp add: por_puntos_def)
  moreover have "estadisticas (data ?r) (clave 5) = None"
    using estadisticas_por_longitud[OF run _ _ c] by simp
  ultimately show ?thesis using run b c by simp
qed

text \<open>
  C5. Whenever the ranking returns a result \<open>r\<close>: its word list is the concatenation of
  the truncated buckets (lengths 3 to 7 in order, each the first 10 of its sorted bucket)
  sorted again, so it is a rearrangement of that concatenation in which no word has a
  higher score than a word before it, whatever the lengths; \<open>total\<close> is the length of
  that list; \<open>total_antes_filtro\<close> is the sum of the sizes of the buckets before
  truncation. For the empty input the result is the empty list with both counts 0 and no
  statistics.
\<close>

theorem palabras_orden_global:
  "(procesarPalabras ps = Inr r \<longrightarrow>
      palabras (data r) =
        array_sort por_puntos
          (concat (map (\<lambda>n. take 10 (array_sort por_puntos (de_longitud n (entradas ps))))
             [3, 4, 5, 6, 7])) \<and>
      mset (palabras (data r)) =
        mset (concat (map (\<lambda>n. take 10 (array_sort por_puntos (de_longitud n (entradas ps))))
             [3, 4, 5, 6, 7])) \<and>
      sorted_wrt (\<lambda>a b. puntos b \<le> puntos a) (palabras (data r)) \<and>
      total (data r) = length (palabras (data r)) \<and>
      total_antes_filtro (data r) =
        sum_list (map (\<lambda>n. length (de_longitud n (entradas ps))) [3, 4, 5, 6, 7])) \<and>
   (\<exists>r0. procesarPalabras [] = Inr r0 \<and> palabras (data r0) = [] \<and> total (data r0) = 0 \<and>
      total_antes_filtro (data r0) = 0 \<and> estadisticas (data r0) = Map.empty)"
proof (intro conjI impI)
  assume "procesarPalabras ps = Inr r"
  then have r: "r = ordenarYLimitarResultados (agrupadas ps)"
    by (simp add: procesarPalabras_eq split: if_splits)
  show p: "palabras (data r) =
        array_sort por_puntos
          (concat (map (\<lambda>n. take 10 (array_sort por_puntos (de_longitud n (entradas ps))))
             [3, 4, 5, 6, 7]))"
    unfolding r by (rule palabras_agrupadas)
  show "mset (palabras (data r)) =
        mset (concat (map (\<lambda>n. take 10 (array_sort por_puntos (de_longitud n (entradas ps))))
             [3, 4, 5, 6, 7]))"
    unfolding p by (rule mset_array_sort)
  show "sorted_wrt (\<lambda>a b. puntos b \<le> puntos a) (palabras (data r))"
    unfolding p by (rule sorted_desc_array_sort)
  show "total (data r) = length (palabras (data r))"
    unfolding r by (rule ordenar_total)
  show "total_antes_filtro (data r) =
        sum_list (map (\<lambda>n. length (de_longitud n (entradas ps))) [3, 4, 5, 6, 7])"
    unfolding r by (rule total_antes_agrupadas)
next
  show "\<exists>r0. procesarPalabras [] = Inr r0 \<and> palabras (data r0) = [] \<and> total (data r0) = 0 \<and>
      total_antes_filtro (data r0) = 0 \<and> estadisticas (data r0) = Map.empty"
    by (simp add: procesarPalabras_def buckets_vacios_def ordenarYLimitarResultados_def)
qed

text \<open>
  C5 at a concrete input where the best word of one bucket (length 3, score 5) scores
  below the worst word of another (length 4, scores 8 and 9).
\<close>

theorem palabras_orden_global_witness:
  "procesarPalabras [[(''SOL'', 5)], [(''CASA'', 8)], [(''MAR'', 2)], [(''COSA'', 9)]] =
     Inr (ordenarYLimitarResultados
       [(3, [\<lparr>palabra = ''SOL'', puntos = 5\<rparr>, \<lparr>palabra = ''MAR'', puntos = 2\<rparr>]),
        (4, [\<lparr>palabra = ''CASA'', puntos = 8\<rparr>, \<lparr>palabra = ''COSA'', puntos = 9\<rparr>]),
        (5, []), (6, []), (7, [])]) \<and>
   palabras (data (ordenarYLimitarResultados
       [(3, [\<lparr>palabra = ''SOL'', puntos = 5\<rparr>, \<lparr>palabra = ''MAR'', puntos = 2\<rparr>]),
        (4, [\<lparr>palabra = ''CASA'', puntos = 8\<rparr>, \<lparr>palabra = ''COSA'', puntos = 9\<rparr>]),
        (5, []), (6, []), (7, [])])) =
     [\<lparr>palabra = ''COSA'', puntos = 9\<rparr>, \<lparr>palabra = ''CASA'', puntos = 8\<rparr>,
      \<lparr>palabra = ''SOL'', puntos = 5\<rparr>, \<lparr>palabra = ''MAR'', puntos = 2\<rparr>] \<and>
   total (data (ordenarYLimitarResultados
       [(3, [\<lparr>palabra = ''SOL'', puntos = 5\<rparr>, \<lparr>palabra = ''MAR'', puntos = 2\<rparr>]),
        (4, [\<lparr>palabra = ''CASA'', puntos = 8\<rparr>, \<lparr>palabra = ''COSA'', puntos = 9\<rparr>]),
        (5, []), (6, []), (7, [])])) = 4 \<and>
   total_antes_filtro (data (ordenarYLimitarResultados
       [(3, [\<lparr>palabra = ''SOL'', puntos = 5\<rparr>, \<lparr>palabra = ''MAR'', puntos = 2\<rparr>]),
        (4, [\<lparr>palabra = ''CASA'', puntos = 8\<rparr>, \<lparr>palabra = ''COSA'', puntos = 9\<rparr>]),
        (5, []), (6, []), (7, [])])) = 4"
proof -
  let ?ps = "[[(''SOL'', 5)], [(''CASA'', 8)], [(''MAR'', 2)], [(''COSA'', 9)]]"
  let ?r = "ordenarYLimitarResultados
       [(3, [\<lparr>palabra = ''SOL'', puntos = 5\<rparr>, \<lparr>palabra = ''MAR'', puntos = 2\<rparr>]),
        (4, [\<lparr>palabra = ''CASA'', puntos = 8\<rparr>, \<lparr>palabra = ''COSA'', puntos = 9\<rparr>]),
        (5, []), (6, []), (7, [])]"
  have run: "procesarPalabras ?ps = Inr ?r"
    by (simp add: procesarPalabras_def buckets_vacios_def push_entry_def)
  from palabras_orden_global[of ?ps ?r] run
  have "palabras (data ?r) =
        array_sort por_puntos
          (concat (map (\<lambda>n. take 10 (array_sort por_puntos (de_longitud n (entradas ?ps))))
             [3, 4, 5, 6, 7]))"
    and "total (data ?r) = length (palabras (data ?r))"
    and "total_antes_filtro (data ?r) =
        sum_list (map (\<lambda>n. length (de_longitud n (entradas ?ps))) [3, 4, 5, 6, 7])"
    by blast+
  then show ?thesis using run
    by (simp add: de_longitud_def por_puntos_def)
qed

text \<open>
  C6. Whenever the ranking returns \<open>r\<close>, ranking the word list of \<open>r\<close> again returns a
  result with the same word list in the same order: the same number of words in all, no
  word cut by the second truncation, and for each length the same number of words kept.
  Equal scores keep their order because both sorts are stable.
\<close>

theorem reordenar_idempotente:
  assumes "procesarPalabras ps = Inr r"
  shows "\<exists>r'. procesarPalabras (map codificar (palabras (data r))) = Inr r' \<and>
           palabras (data r') = palabras (data r) \<and>
           total (data r') = total (data r) \<and>
           total_antes_filtro (data r') = total (data r) \<and>
           (\<forall>n \<in> {3, 4, 5, 6, 7}.
              map_option mejores (estadisticas (data r') (clave n)) =
              map_option mejores (estadisticas (data r) (clave n)))"
proof -
  from assms have r: "r = ordenarYLimitarResultados (agrupadas ps)"
    by (simp add: procesarPalabras_eq split: if_splits)
  let ?W = "palabras (data r)"
  let ?r' = "ordenarYLimitarResultados (agrupadas (map codificar ?W))"
  have "list_all en_rango (map codificar ?W)"
    unfolding en_rango_codificar r by (rule rango_palabras)
  then have run: "procesarPalabras (map codificar ?W) = Inr ?r'"
    by (simp add: procesarPalabras_eq)
  have same: "palabras (data ?r') = ?W"
    unfolding r by (rule reordenar_palabras)
  have tot: "total (data ?r') = total (data r)"
    using same by (simp add: r ordenar_total)
  have ant: "total_antes_filtro (data ?r') = total (data r)"
    unfolding r by (simp only: reordenar_total_antes ordenar_total)
  have "\<forall>n \<in> {3, 4, 5, 6, 7}.
        map_option mejores (estadisticas (data ?r') (clave n)) =
        map_option mejores (estadisticas (data r) (clave n))"
    unfolding r by (simp add: reordenar_mejores)
  with run same tot ant show ?thesis by blast
qed

text \<open>C6 at a concrete input with three equal scores over two lengths.\<close>

theorem reordenar_idempotente_witness:
  "procesarPalabras [[(''SOL'', 5)], [(''CASA'', 5)], [(''MAR'', 5)], [(''COSA'', 9)]] =
     Inr (ordenarYLimitarResultados
       [(3, [\<lparr>palabra = ''SOL'', puntos = 5\<rparr>, \<lparr>palabra = ''MAR'', puntos = 5\<rparr>]),
        (4, [\<lparr>palabra = ''CASA'', puntos = 5\<rparr>, \<lparr>palabra = ''COSA'', puntos = 9\<rparr>]),
        (5, []), (6, []), (7, [])]) \<and>
   palabras (data (ordenarYLimitarResultados
       [(3, [\<lparr>palabra = ''SOL'', puntos = 5\<rparr>, \<lparr>palabra = ''MAR'', puntos = 5\<rparr>]),
        (4, [\<lparr>palabra = ''CASA'', puntos = 5\<rparr>, \<lparr>palabra = ''COSA'', puntos = 9\<rparr>]),
        (5, []), (6, []), (7, [])])) =
     [\<lparr>palabra = ''COSA'', puntos = 9\<rparr>, \<lparr>palabra = ''SOL'', puntos = 5\<rparr>,
      \<lparr>palabra = ''MAR'', puntos = 5\<rparr>, \<lparr>palabra = ''CASA'', puntos = 5\<rparr>] \<and>
   (\<exists>r'. procesarPalabras [[(''COSA'', 9)], [(''SOL'', 5)], [(''MAR'', 5)], [(''CASA'', 5)]] = Inr r' \<and>
      palabras (data r') =
        [\<lparr>palabra = ''COSA'', puntos = 9\<rparr>, \<lparr>palabra = ''SOL'', puntos = 5\<rparr>,
         \<lparr>palabra = ''MAR'', puntos = 5\<rparr>, \<lparr>palabra = ''CASA'', puntos = 5\<rparr>] \<and>
      total (data r') = 4)"
proof -
  let ?ps = "[[(''SOL'', 5)], [(''CASA'', 5)], [(''MAR'', 5)], [(''COSA'', 9)]]"
  let ?r = "ordenarYLimitarResultados
       [(3, [\<lparr>palabra = ''SOL'', puntos = 5\<rparr>, \<lparr>palabra = ''MAR'', puntos = 5\<rparr>]),
        (4, [\<lparr>palabra = ''CASA'', puntos = 5\<rparr>, \<lparr>palabra = ''COSA'', puntos = 9\<rparr>]),
        (5, []), (6, []), (7, [])]"
  have run: "procesarPalabras ?ps = Inr ?r"
    by (simp add: procesarPalabras_def buckets_vacios_def push_entry_def)
  have w: "palabras (data ?r) =
     [\<lparr>palabra = ''COSA'', puntos = 9\<rparr>, \<lparr>palabra = ''SOL'', puntos = 5\<rparr>,
      \<lparr>palabra = ''MAR'', puntos = 5\<rparr>, \<lparr>palabra = ''CASA'', puntos = 5\<rparr>]"
    by (simp add: ordenar_palabras por_puntos_def)
  have t: "total (data ?r) = 4"
    by (simp add: ordenar_total w)
  from reordenar_idempotente[OF run] obtain r' where
    "procesarPalabras (map codificar (palabras (data ?r))) = Inr r'"
    "palabras (data r') = palabras (data ?r)" "total (data r') = total (data ?r)"
    by blast
  then have "procesarPalabras [[(''COSA'', 9)], [(''SOL'', 5)], [(''MAR'', 5)], [(''CASA'', 5)]] = Inr r' \<and>
      palabras (data r') =
        [\<lparr>palabra = ''COSA'', puntos = 9\<rparr>, \<lparr>palabra = ''SOL'', puntos = 5\<rparr>,
         \<lparr>palabra = ''MAR'', puntos = 5\<rparr>, \<lparr>palabra = ''CASA'', puntos = 5\<rparr>] \<and>
      total (data r') = 4"
    by (simp add: w t codificar_def)
  then show ?thesis using run w by blast
qed

section \<open>The claim about validation\<close>

text \<open>
  C2, as the specification states it, fails: the round is only required to be of type
  number and to lie between 1 and 5, so the round 2.5, which is not an integer, passes the
  validation.
\<close>

theorem validar_ronda_no_entera:
  "validarParametros letras7 tabla5 (JNumber (Finito (5 / 2))) = Inr ()"
  by (simp add: validarParametros_def letras7_def tabla5_def)

text \<open>
  C2, amended. For every round other than \<open>NaN\<close> (that round is left out of the
  statement), \<open>validarParametros\<close> throws (an Error with a message, its only kind of
  failure) exactly when the letters are not an array of exactly 7 elements, or the bonus
  table is not an array of exactly 5 rows, or some row \<open>i\<close> (from 0 to 4) is not an array
  of exactly \<open>i + 3\<close> elements, or the round is not a number between 1 and 5 inclusive;
  whether the round is an integer is not checked. When it throws, \<open>buscarPalabras\<close>
  throws the same error and fetches nothing. When it succeeds and every letter is a
  string, \<open>buscarPalabras\<close> fetches exactly one URL, built from the letters in upper
  case; when it succeeds and some letter is not a string, \<open>buscarPalabras\<close> throws a
  TypeError and fetches nothing.
\<close>

theorem validar_exactamente:
  assumes "r \<noteq> JNumber NaN"
  shows "((\<exists>m. validarParametros l p r = Inl (Error m)) \<longleftrightarrow>
            \<not> (\<exists>xs. l = JArray xs \<and> length xs = 7) \<or>
            \<not> (\<exists>filas. p = JArray filas \<and> length filas = 5) \<or>
            (\<exists>filas i. p = JArray filas \<and> i < 5 \<and>
               \<not> (\<exists>fila. filas ! i = JArray fila \<and> length fila = i + 3)) \<or>
            \<not> (\<exists>v. r = JNumber (Finito v) \<and> 1 \<le> v \<and> v \<le> 5)) \<and>
         (validarParametros l p r = Inr () \<or> (\<exists>m. validarParametros l p r = Inl (Error m))) \<and>
         (\<forall>e. validarParametros l p r = Inl e \<longrightarrow> buscarPalabras pf l p r api = (Inl e, [])) \<and>
         (\<forall>ls. validarParametros l p r = Inr () \<and> l = JArray (map JString ls) \<longrightarrow>
            snd (buscarPalabras pf l p r api) =
              [api @ ''?letras='' @ join '','' (map (toUpperCase pf) ls) @ ''&puntos_extra='' @
               encodeURIComponent pf (stringify pf p) @ ''&ronda='' @ a_texto pf r]) \<and>
         (validarParametros l p r = Inr () \<and> \<not> (\<exists>ls. l = JArray (map JString ls)) \<longrightarrow>
            buscarPalabras pf l p r api = (Inl TypeError, []))"
proof (intro conjI)
  have "(\<exists>m. validarParametros l p r = Inl (Error m)) \<longleftrightarrow> validarParametros l p r \<noteq> Inr ()"
    using validarParametros_casos[of l p r] by auto
  also have "\<dots> \<longleftrightarrow> \<not> ((\<exists>xs. l = JArray xs \<and> length xs = 7) \<and>
     (\<exists>filas. p = JArray filas \<and> length filas = 5 \<and>
        (\<forall>i < 5. \<exists>fila. filas ! i = JArray fila \<and> length fila = i + 3)) \<and>
     (\<exists>v. r = JNumber (Finito v) \<and> 1 \<le> v \<and> v \<le> 5))"
    unfolding validarParametros_ok ronda_ok[OF assms] ..
  also have "\<dots> \<longleftrightarrow>
            \<not> (\<exists>xs. l = JArray xs \<and> length xs = 7) \<or>
            \<not> (\<exists>filas. p = JArray filas \<and> length filas = 5) \<or>
            (\<exists>filas i. p = JArray filas \<and> i < 5 \<and>
               \<not> (\<exists>fila. filas ! i = JArray fila \<and> length fila = i + 3)) \<or>
            \<not> (\<exists>v. r = JNumber (Finito v) \<and> 1 \<le> v \<and> v \<le> 5)"
    by blast
  finally show "(\<exists>m. validarParametros l p r = Inl (Error m)) \<longleftrightarrow>
            \<not> (\<exists>xs. l = JArray xs \<and> length xs = 7) \<or>
            \<not> (\<exists>filas. p = JArray filas \<and> length filas = 5) \<or>
            (\<exists>filas i. p = JArray filas \<and> i < 5 \<and>
               \<not> (\<exists>fila. filas ! i = JArray fila \<and> length fila = i + 3)) \<or>
            \<not> (\<exists>v. r = JNumber (Finito v) \<and> 1 \<le> v \<and> v \<le> 5)" .
next
  show "validarParametros l p r = Inr () \<or> (\<exists>m. validarParametros l p r = Inl (Error m))"
    by (rule validarParametros_casos)
next
  show "\<forall>e. validarParametros l p r = Inl e \<longrightarrow> buscarPalabras pf l p r api = (Inl e, [])"
    by (simp add: buscar_invalido)
next
  show "\<forall>ls. validarParametros l p r = Inr () \<and> l = JArray (map JString ls) \<longrightarrow>
            snd (buscarPalabras pf l p r api) =
              [api @ ''?letras='' @ join '','' (map (toUpperCase pf) ls) @ ''&puntos_extra='' @
               encodeURIComponent pf (stringify pf p) @ ''&ronda='' @ a_texto pf r]"
    using buscar_pedidas by blast
next
  show "validarParametros l p r = Inr () \<and> \<not> (\<exists>ls. l = JArray (map JString ls)) \<longrightarrow>
            buscarPalabras pf l p r api = (Inl TypeError, [])"
    using buscar_sin_textos by blast
qed

text \<open>
  The amended C2 at the round 2, which is valid, at the round 6, which is not, and at
  seven letters that are numbers.
\<close>

theorem validar_exactamente_witness:
  "JNumber (Finito 2) \<noteq> JNumber NaN \<and> JNumber (Finito 6) \<noteq> JNumber NaN \<and>
   validarParametros letras7 tabla5 (JNumber (Finito 2)) = Inr () \<and>
   snd (buscarPalabras plataforma_fija letras7 tabla5 (JNumber (Finito 2)) ''/api/bpwordzee'') =
     [''/api/bpwordzee?letras=C,A,S,A,R,O,N&puntos_extra=[]&ronda=2''] \<and>
   (\<exists>m. validarParametros letras7 tabla5 (JNumber (Finito 6)) = Inl (Error m)) \<and>
   snd (buscarPalabras plataforma_fija letras7 tabla5 (JNumber (Finito 6)) ''/api/bpwordzee'') = [] \<and>
   validarParametros (JArray (replicate 7 (JNumber (Finito 1)))) tabla5 (JNumber (Finito 2)) = Inr () \<and>
   buscarPalabras plataforma_fija (JArray (replicate 7 (JNumber (Finito 1)))) tabla5
       (JNumber (Finito 2)) ''/api/bpwordzee'' =
     (Inl TypeError, [])"
proof -
  have a: "JNumber (Finito 2) \<noteq> JNumber NaN" and b: "JNumber (Finito 6) \<noteq> JNumber NaN"
    by simp_all
  have ok: "validarParametros letras7 tabla5 (JNumber (Finito 2)) = Inr ()"
    by (simp add: validarParametros_def letras7_def tabla5_def)
  have l: "letras7 = JArray (map JString [''c'', ''a'', ''s'', ''a'', ''r'', ''o'', ''n''])"
    by (simp add: letras7_def)
  have six: "\<not> (\<exists>v. JNumber (Finito 6) = JNumber (Finito v) \<and> 1 \<le> v \<and> v \<le> 5)"
    by simp
  note t2 = validar_exactamente[OF a, of letras7 tabla5 plataforma_fija "''/api/bpwordzee''"]
  note t6 = validar_exactamente[OF b, of letras7 tabla5 plataforma_fija "''/api/bpwordzee''"]
  from t2 have "\<forall>ls. validarParametros letras7 tabla5 (JNumber (Finito 2)) = Inr () \<and>
          letras7 = JArray (map JString ls) \<longrightarrow>
        snd (buscarPalabras plataforma_fija letras7 tabla5 (JNumber (Finito 2)) ''/api/bpwordzee'') =
          [''/api/bpwordzee'' @ ''?letras='' @ join '','' (map (toUpperCase plataforma_fija) ls) @
           ''&puntos_extra='' @ encodeURIComponent plataforma_fija (stringify plataforma_fija tabla5) @
           ''&ronda='' @ a_texto plataforma_fija (JNumber (Finito 2))]"
    by blast
  with ok l have "snd (buscarPalabras plataforma_fija letras7 tabla5 (JNumber (Finito 2)) ''/api/bpwordzee'') =
          [''/api/bpwordzee'' @ ''?letras='' @
           join '','' (map (toUpperCase plataforma_fija) [''c'', ''a'', ''s'', ''a'', ''r'', ''o'', ''n'']) @
           ''&puntos_extra='' @ encodeURIComponent plataforma_fija (stringify plataforma_fija tabla5) @
           ''&ronda='' @ a_texto plataforma_fija (JNumber (Finito 2))]"
    by blast
  then have "snd (buscarPalabras plataforma_fija letras7 tabla5 (JNumber (Finito 2)) ''/api/bpwordzee'') =
     [''/api/bpwordzee?letras=C,A,S,A,R,O,N&puntos_extra=[]&ronda=2'']"
    by (simp add: plataforma_fija_def)
  moreover from t6 six have bad: "\<exists>m. validarParametros letras7 tabla5 (JNumber (Finito 6)) = Inl (Error m)"
    by blast
  moreover from t6 bad have "snd (buscarPalabras plataforma_fija letras7 tabla5 (JNumber (Finito 6)) ''/api/bpwordzee'') = []"
    by auto
  moreover have ok': "validarParametros (JArray (replicate 7 (JNumber (Finito 1)))) tabla5
      (JNumber (Finito 2)) = Inr ()"
    by (simp add: validarParametros_def tabla5_def)
  moreover have "buscarPalabras plataforma_fija (JArray (replicate 7 (JNumber (Finito 1)))) tabla5
       (JNumber (Finito 2)) ''/api/bpwordzee'' = (Inl TypeError, [])"
  proof -
    have n: "\<not> (\<exists>ls. JArray (replicate 7 (JNumber (Finito 1))) = JArray (map JString ls))"
      by (auto simp: numeral_eq_Suc)
    from validar_exactamente[OF a, of "JArray (replicate 7 (JNumber (Finito 1)))" tabla5
        plataforma_fija "''/api/bpwordzee''"] ok' n
    show ?thesis by blast
  qed
  ultimately show ?thesis using a b ok by blast
qed

section \<open>The claims about the service worker\<close>

text \<open>
  C7. For every request whose path contains \<open>/api/\<close> or whose host name contains
  \<open>api.\<close>, whatever the caches hold: the worker makes exactly one network request,
  leaves the caches and the pending writes as they are, and answers with the response of
  the network; when the network fails it answers, instead of failing, with a response of
  status 200 whose body is the JSON text of \<open>{success: false, mensaje: m}\<close> with \<open>m\<close> not
  empty.
\<close>

theorem api_siempre_red:
  assumes "js_includes (pathname rq) ''/api/'' \<or> js_includes (hostname rq) ''api.''"
  shows "\<exists>r. fetch_listener v env rq w = (Inr r, w\<lparr>fetched := fetched w @ [url rq]\<rparr>) \<and>
           (case red env (url rq) of
              Some n \<Rightarrow> r = n
            | None \<Rightarrow>
                status r = 200 \<and>
                (\<exists>m. cuerpo r = JsonDe (JObject [(''success'', JBool False), (''mensaje'', JString m)]) \<and>
                     m \<noteq> []))"
  using assms
  by (auto simp: fetch_listener_def respuesta_sin_conexion_def split: option.splits)

text \<open>C7 at an API request with the network down and a response for the same URL in a cache.\<close>

theorem api_siempre_red_witness:
  "js_includes (pathname pedido_api) ''/api/'' \<and>
   red sin_red (url pedido_api) = None \<and>
   fetch_listener VERSION sin_red pedido_api
       (worker_inicial\<lparr>caches := [(CACHE_NAME VERSION, [(url pedido_api, respuesta_sin_conexion\<lparr>status := 404\<rparr>)])]\<rparr>) =
     (Inr respuesta_sin_conexion,
      worker_inicial\<lparr>caches := [(CACHE_NAME VERSION, [(url pedido_api, respuesta_sin_conexion\<lparr>status := 404\<rparr>)])],
                     fetched := [url pedido_api]\<rparr>)"
proof -
  have a: "js_includes (pathname pedido_api) ''/api/''"
    by (simp add: pedido_api_def)
  have n: "red sin_red (url pedido_api) = None"
    by (simp add: sin_red_def)
  let ?w = "worker_inicial\<lparr>caches := [(CACHE_NAME VERSION, [(url pedido_api, respuesta_sin_conexion\<lparr>status := 404\<rparr>)])]\<rparr>"
  from api_siempre_red[of pedido_api VERSION sin_red ?w] a
  obtain r where r: "fetch_listener VERSION sin_red pedido_api ?w = (Inr r, ?w\<lparr>fetched := fetched ?w @ [url pedido_api]\<rparr>)"
    by blast
  have "fetch_listener VERSION sin_red pedido_api ?w = (Inr respuesta_sin_conexion, ?w\<lparr>fetched := fetched ?w @ [url pedido_api]\<rparr>)"
    using r a n by (simp add: fetch_listener_def)
  then show ?thesis using a n by (simp add: worker_inicial_def)
qed

text \<open>
  C8, as the specification states it, fails: the copy is not stored before the response
  is returned. For a request to the CDN that no cache holds, answered 200 by the network,
  the listener returns the response while the caches are still empty, and an identical
  request handled right then goes to the network a second time.
\<close>

theorem copia_no_esperada:
  "fst (fetch_listener VERSION con_red pedido_cdn worker_inicial) = Inr hoja \<and>
   status hoja = 200 \<and>
   caches (snd (fetch_listener VERSION con_red pedido_cdn worker_inicial)) = [] \<and>
   fetched (snd (fetch_listener VERSION con_red pedido_cdn
              (snd (fetch_listener VERSION con_red pedido_cdn worker_inicial)))) =
     [url pedido_cdn, url pedido_cdn]"
  by (simp add: fetch_listener_def con_red_def pedido_cdn_def worker_inicial_def hoja_def)

text \<open>
  C8, amended. For every request that is not an API request and whose origin differs from
  the worker's: if some cache holds a response for its URL, that response is served and
  nothing else happens; otherwise exactly one network request is made and the caches are
  not touched before the answer is returned. A failed fetch is passed on as a failure. A
  response whose status is not 200 is returned and no write is started. A response of
  status 200 is returned after a write of a copy into the external cache of the version
  has been started without being awaited; once the pending writes have completed the
  external cache holds the copy and an identical request is served from a cache without
  a network request (with that very copy when no other write was pending).
\<close>

theorem externo_cache_primero:
  assumes "\<not> (js_includes (pathname rq) ''/api/'' \<or> js_includes (hostname rq) ''api.'')"
    and "origin rq \<noteq> location_origin env"
    and "res = fetch_listener v env rq w"
  shows
    "(\<forall>c. caches_match (url rq) (caches w) = Some c \<longrightarrow> res = (Inr c, w)) \<and>
     (caches_match (url rq) (caches w) = None \<longrightarrow>
        fetched (snd res) = fetched w @ [url rq] \<and>
        caches (snd res) = caches w \<and>
        (red env (url rq) = None \<longrightarrow>
           res = (Inl NetworkFailure, w\<lparr>fetched := fetched w @ [url rq]\<rparr>)) \<and>
        (\<forall>r. red env (url rq) = Some r \<longrightarrow>
           fst res = Inr r \<and>
           (status r \<noteq> 200 \<longrightarrow> snd res = w\<lparr>fetched := fetched w @ [url rq]\<rparr>) \<and>
           (status r = 200 \<longrightarrow>
              pendientes (snd res) = pendientes w @ [(CACHE_NAME_EXTERNAL v, url rq, r)] \<and>
              (\<exists>c. map_of (caches (completar (snd res))) (CACHE_NAME_EXTERNAL v) = Some c \<and>
                   map_of c (url rq) = Some r) \<and>
              (\<exists>c. fetch_listener v env rq (completar (snd res)) = (Inr c, completar (snd res)) \<and>
                   (pendientes w = [] \<longrightarrow> c = r)))))"
proof (intro conjI allI impI)
  fix c assume "caches_match (url rq) (caches w) = Some c"
  then show "res = (Inr c, w)"
    unfolding assms(3) using assms(1,2) by (simp add: externo_acierto)
next
  assume none: "caches_match (url rq) (caches w) = None"
  note res = externo_fallo[OF assms(1,2) none, of v, folded assms(3)]
  show "fetched (snd res) = fetched w @ [url rq]"
    unfolding res by (simp split: option.splits)
  show "caches (snd res) = caches w"
    unfolding res by (simp split: option.splits)
  show "res = (Inl NetworkFailure, w\<lparr>fetched := fetched w @ [url rq]\<rparr>)"
    if "red env (url rq) = None"
    unfolding res using that by simp
  fix r assume r: "red env (url rq) = Some r"
  show "fst res = Inr r" unfolding res using r by simp
  show "snd res = w\<lparr>fetched := fetched w @ [url rq]\<rparr>" if "status r \<noteq> 200"
    unfolding res using r that by simp
  assume ok: "status r = 200"
  show p: "pendientes (snd res) = pendientes w @ [(CACHE_NAME_EXTERNAL v, url rq, r)]"
    unfolding res using r ok by simp
  show "\<exists>c. map_of (caches (completar (snd res))) (CACHE_NAME_EXTERNAL v) = Some c \<and>
                   map_of c (url rq) = Some r"
    using p by (rule completar_en_su_cache)
  have cs: "caches (snd res) = caches w" unfolding res by (simp split: option.splits)
  from completar_ultimo(1)[OF p]
  obtain c where c: "caches_match (url rq) (caches (completar (snd res))) = Some c" by blast
  have hit: "fetch_listener v env rq (completar (snd res)) = (Inr c, completar (snd res))"
    using assms(1,2) c by (rule externo_acierto)
  have "c = r" if "pendientes w = []"
  proof -
    from p that have "pendientes (snd res) = [] @ [(CACHE_NAME_EXTERNAL v, url rq, r)]" by simp
    from completar_ultimo(2)[OF this refl] none cs c show ?thesis by simp
  qed
  with hit show "\<exists>c. fetch_listener v env rq (completar (snd res)) = (Inr c, completar (snd res)) \<and>
                   (pendientes w = [] \<longrightarrow> c = r)"
    by blast
qed

text \<open>The amended C8 at a request to the CDN, answered 200 and answered 404.\<close>

theorem externo_cache_primero_witness:
  "\<not> (js_includes (pathname pedido_cdn) ''/api/'' \<or> js_includes (hostname pedido_cdn) ''api.'') \<and>
   origin pedido_cdn \<noteq> location_origin con_red \<and>
   caches_match (url pedido_cdn) (caches worker_inicial) = None \<and>
   red con_red (url pedido_cdn) = Some hoja \<and> status hoja = 200 \<and>
   fetched (snd (fetch_listener VERSION con_red pedido_cdn worker_inicial)) = [url pedido_cdn] \<and>
   fetch_listener VERSION con_red pedido_cdn
       (completar (snd (fetch_listener VERSION con_red pedido_cdn worker_inicial))) =
     (Inr hoja, completar (snd (fetch_listener VERSION con_red pedido_cdn worker_inicial))) \<and>
   status (hoja\<lparr>status := 404, statusText := ''Not Found''\<rparr>) \<noteq> 200 \<and>
   snd (fetch_listener VERSION red_404 pedido_cdn worker_inicial) =
     worker_inicial\<lparr>fetched := [url pedido_cdn]\<rparr>"
proof -
  have a: "\<not> (js_includes (pathname pedido_cdn) ''/api/'' \<or> js_includes (hostname pedido_cdn) ''api.'')"
    by (simp add: pedido_cdn_def)
  have b: "origin pedido_cdn \<noteq> location_origin con_red"
    and b': "origin pedido_cdn \<noteq> location_origin red_404"
    by (simp_all add: pedido_cdn_def con_red_def red_404_def)
  have n: "caches_match (url pedido_cdn) (caches worker_inicial) = None"
    and p: "pendientes worker_inicial = []" and f: "fetched worker_inicial = []"
    by (simp_all add: worker_inicial_def)
  have r: "red con_red (url pedido_cdn) = Some hoja"
    and r': "red red_404 (url pedido_cdn) = Some (hoja\<lparr>status := 404, statusText := ''Not Found''\<rparr>)"
    by (simp_all add: con_red_def red_404_def)
  have s: "status hoja = 200"
    and s': "status (hoja\<lparr>status := 404, statusText := ''Not Found''\<rparr>) \<noteq> 200"
    by (simp_all add: hoja_def)
  note t = externo_cache_primero[OF a b refl, where v = VERSION and w = worker_inicial]
  note t' = externo_cache_primero[OF a b' refl, where v = VERSION and w = worker_inicial]
  from t n have "fetched (snd (fetch_listener VERSION con_red pedido_cdn worker_inicial)) =
      fetched worker_inicial @ [url pedido_cdn]"
    by blast
  then have one: "fetched (snd (fetch_listener VERSION con_red pedido_cdn worker_inicial)) = [url pedido_cdn]"
    by (simp add: f)
  from t n r s p have hit: "fetch_listener VERSION con_red pedido_cdn
       (completar (snd (fetch_listener VERSION con_red pedido_cdn worker_inicial))) =
     (Inr hoja, completar (snd (fetch_listener VERSION con_red pedido_cdn worker_inicial)))"
    by blast
  from t' n r' s' have "snd (fetch_listener VERSION red_404 pedido_cdn worker_inicial) =
     worker_inicial\<lparr>fetched := fetched worker_inicial @ [url pedido_cdn]\<rparr>"
    by blast
  then have nf: "snd (fetch_listener VERSION red_404 pedido_cdn worker_inicial) =
     worker_inicial\<lparr>fetched := [url pedido_cdn]\<rparr>"
    by (simp add: f)
  from a b n r s one hit s' nf show ?thesis by blast
qed

text \<open>
  C9. When the activation of version \<open>v\<close> has completed, a cache that existed before is
  gone exactly when its name is neither the primary nor the external cache name of \<open>v\<close>,
  and the caches under those two names are as they were. In particular, after an
  installation with version \<open>v1\<close> and an installation with version \<open>v2\<close>, the
  activation of \<open>v2\<close> deletes both caches named after \<open>v1\<close> and leaves both caches named
  after \<open>v2\<close> intact; the same holds for every two versions whose cache names differ.
\<close>

theorem activate_borra_versiones_viejas:
  "(\<forall>n \<in> set (caches_keys (caches w)).
      n \<notin> set (caches_keys (caches (activate_listener v w))) \<longleftrightarrow>
      n \<noteq> CACHE_NAME v \<and> n \<noteq> CACHE_NAME_EXTERNAL v) \<and>
   (\<forall>n. n = CACHE_NAME v \<or> n = CACHE_NAME_EXTERNAL v \<longrightarrow>
      map_of (caches (activate_listener v w)) n = map_of (caches w) n) \<and>
   (\<forall>w1 w2 w3.
      w1 = snd (install_listener ''v1'' env1 w) \<and>
      w2 = snd (install_listener ''v2'' env2 w1) \<and>
      w3 = activate_listener ''v2'' w2 \<longrightarrow>
      {CACHE_NAME ''v1'', CACHE_NAME_EXTERNAL ''v1''} \<subseteq> set (caches_keys (caches w2)) \<and>
      CACHE_NAME ''v1'' \<notin> set (caches_keys (caches w3)) \<and>
      CACHE_NAME_EXTERNAL ''v1'' \<notin> set (caches_keys (caches w3)) \<and>
      set (caches_keys (caches w3)) = {CACHE_NAME ''v2'', CACHE_NAME_EXTERNAL ''v2''} \<and>
      map_of (caches w3) (CACHE_NAME ''v2'') = map_of (caches w2) (CACHE_NAME ''v2'') \<and>
      map_of (caches w3) (CACHE_NAME_EXTERNAL ''v2'') = map_of (caches w2) (CACHE_NAME_EXTERNAL ''v2'')) \<and>
   (\<forall>v1 v2 w1 w2 w3.
      v1 \<noteq> v2 \<and> v1 \<noteq> ''external-'' @ v2 \<and> v2 \<noteq> ''external-'' @ v1 \<and>
      w1 = snd (install_listener v1 env1 w) \<and>
      w2 = snd (install_listener v2 env2 w1) \<and>
      w3 = activate_listener v2 w2 \<longrightarrow>
      {CACHE_NAME v1, CACHE_NAME_EXTERNAL v1} \<subseteq> set (caches_keys (caches w2)) \<and>
      CACHE_NAME v1 \<notin> set (caches_keys (caches w3)) \<and>
      CACHE_NAME_EXTERNAL v1 \<notin> set (caches_keys (caches w3)) \<and>
      set (caches_keys (caches w3)) = {CACHE_NAME v2, CACHE_NAME_EXTERNAL v2} \<and>
      map_of (caches w3) (CACHE_NAME v2) = map_of (caches w2) (CACHE_NAME v2) \<and>
      map_of (caches w3) (CACHE_NAME_EXTERNAL v2) = map_of (caches w2) (CACHE_NAME_EXTERNAL v2))"
proof -
  have a: "\<forall>n \<in> set (caches_keys (caches w)).
      n \<notin> set (caches_keys (caches (activate_listener v w))) \<longleftrightarrow>
      n \<noteq> CACHE_NAME v \<and> n \<noteq> CACHE_NAME_EXTERNAL v"
    by (auto simp: keys_activate)
  have b: "\<forall>n. n = CACHE_NAME v \<or> n = CACHE_NAME_EXTERNAL v \<longrightarrow>
      map_of (caches (activate_listener v w)) n = map_of (caches w) n"
    using contenido_activate by blast
  have d: "\<forall>v1 v2 w1 w2 w3.
      v1 \<noteq> v2 \<and> v1 \<noteq> ''external-'' @ v2 \<and> v2 \<noteq> ''external-'' @ v1 \<and>
      w1 = snd (install_listener v1 env1 w) \<and>
      w2 = snd (install_listener v2 env2 w1) \<and>
      w3 = activate_listener v2 w2 \<longrightarrow>
      {CACHE_NAME v1, CACHE_NAME_EXTERNAL v1} \<subseteq> set (caches_keys (caches w2)) \<and>
      CACHE_NAME v1 \<notin> set (caches_keys (caches w3)) \<and>
      CACHE_NAME_EXTERNAL v1 \<notin> set (caches_keys (caches w3)) \<and>
      set (caches_keys (caches w3)) = {CACHE_NAME v2, CACHE_NAME_EXTERNAL v2} \<and>
      map_of (caches w3) (CACHE_NAME v2) = map_of (caches w2) (CACHE_NAME v2) \<and>
      map_of (caches w3) (CACHE_NAME_EXTERNAL v2) = map_of (caches w2) (CACHE_NAME_EXTERNAL v2)"
  proof (intro allI impI)
    fix v1 v2 w1 w2 w3
    assume h: "v1 \<noteq> v2 \<and> v1 \<noteq> ''external-'' @ v2 \<and> v2 \<noteq> ''external-'' @ v1 \<and>
      w1 = snd (install_listener v1 env1 w) \<and>
      w2 = snd (install_listener v2 env2 w1) \<and>
      w3 = activate_listener v2 w2"
    then have "v1 \<noteq> v2" "v1 \<noteq> ''external-'' @ v2" "v2 \<noteq> ''external-'' @ v1" by blast+
    note n = nombres_distintos[OF this]
    from h have "w1 = snd (install_listener v1 env1 w)" "w2 = snd (install_listener v2 env2 w1)"
      "w3 = activate_listener v2 w2" by blast+
    from relevo[OF n this]
    show "{CACHE_NAME v1, CACHE_NAME_EXTERNAL v1} \<subseteq> set (caches_keys (caches w2)) \<and>
      CACHE_NAME v1 \<notin> set (caches_keys (caches w3)) \<and>
      CACHE_NAME_EXTERNAL v1 \<notin> set (caches_keys (caches w3)) \<and>
      set (caches_keys (caches w3)) = {CACHE_NAME v2, CACHE_NAME_EXTERNAL v2} \<and>
      map_of (caches w3) (CACHE_NAME v2) = map_of (caches w2) (CACHE_NAME v2) \<and>
      map_of (caches w3) (CACHE_NAME_EXTERNAL v2) = map_of (caches w2) (CACHE_NAME_EXTERNAL v2)" .
  qed
  have c: "\<forall>w1 w2 w3.
      w1 = snd (install_listener ''v1'' env1 w) \<and>
      w2 = snd (install_listener ''v2'' env2 w1) \<and>
      w3 = activate_listener ''v2'' w2 \<longrightarrow>
      {CACHE_NAME ''v1'', CACHE_NAME_EXTERNAL ''v1''} \<subseteq> set (caches_keys (caches w2)) \<and>
      CACHE_NAME ''v1'' \<notin> set (caches_keys (caches w3)) \<and>
      CACHE_NAME_EXTERNAL ''v1'' \<notin> set (caches_keys (caches w3)) \<and>
      set (caches_keys (caches w3)) = {CACHE_NAME ''v2'', CACHE_NAME_EXTERNAL ''v2''} \<and>
      map_of (caches w3) (CACHE_NAME ''v2'') = map_of (caches w2) (CACHE_NAME ''v2'') \<and>
      map_of (caches w3) (CACHE_NAME_EXTERNAL ''v2'') = map_of (caches w2) (CACHE_NAME_EXTERNAL ''v2'')"
  proof (intro allI impI)
    fix w1 w2 w3
    assume h: "w1 = snd (install_listener ''v1'' env1 w) \<and>
      w2 = snd (install_listener ''v2'' env2 w1) \<and>
      w3 = activate_listener ''v2'' w2"
    have "''v1'' \<noteq> ''v2''" "''v1'' \<noteq> ''external-'' @ ''v2''" "''v2'' \<noteq> ''external-'' @ ''v1''"
      by simp_all
    note n = nombres_distintos[OF this]
    from h have "w1 = snd (install_listener ''v1'' env1 w)" "w2 = snd (install_listener ''v2'' env2 w1)"
      "w3 = activate_listener ''v2'' w2" by blast+
    from relevo[OF n this]
    show "{CACHE_NAME ''v1'', CACHE_NAME_EXTERNAL ''v1''} \<subseteq> set (caches_keys (caches w2)) \<and>
      CACHE_NAME ''v1'' \<notin> set (caches_keys (caches w3)) \<and>
      CACHE_NAME_EXTERNAL ''v1'' \<notin> set (caches_keys (caches w3)) \<and>
      set (caches_keys (caches w3)) = {CACHE_NAME ''v2'', CACHE_NAME_EXTERNAL ''v2''} \<and>
      map_of (caches w3) (CACHE_NAME ''v2'') = map_of (caches w2) (CACHE_NAME ''v2'') \<and>
      map_of (caches w3) (CACHE_NAME_EXTERNAL ''v2'') = map_of (caches w2) (CACHE_NAME_EXTERNAL ''v2'')" .
  qed
  from a b c d show ?thesis by (intro conjI)
qed

text \<open>C9 at a worker that installs \<open>v1\<close> offline, installs \<open>v2\<close> online and activates \<open>v2\<close>.\<close>

theorem activate_borra_versiones_viejas_witness:
  "caches_keys (caches (snd (install_listener ''v2'' con_red
       (snd (install_listener ''v1'' sin_red worker_inicial))))) =
     [''bpwordzee-v1'', ''bpwordzee-external-v1'', ''bpwordzee-v2'', ''bpwordzee-external-v2''] \<and>
   CACHE_NAME ''v1'' \<notin> set (caches_keys (caches (activate_listener ''v2''
       (snd (install_listener ''v2'' con_red (snd (install_listener ''v1'' sin_red worker_inicial))))))) \<and>
   CACHE_NAME_EXTERNAL ''v1'' \<notin> set (caches_keys (caches (activate_listener ''v2''
       (snd (install_listener ''v2'' con_red (snd (install_listener ''v1'' sin_red worker_inicial))))))) \<and>
   set (caches_keys (caches (activate_listener ''v2''
       (snd (install_listener ''v2'' con_red (snd (install_listener ''v1'' sin_red worker_inicial))))))) =
     {''bpwordzee-v2'', ''bpwordzee-external-v2''}"
proof -
  let ?w2 = "snd (install_listener ''v2'' con_red (snd (install_listener ''v1'' sin_red worker_inicial)))"
  have k: "caches_keys (caches ?w2) =
     [''bpwordzee-v1'', ''bpwordzee-external-v1'', ''bpwordzee-v2'', ''bpwordzee-external-v2'']"
    unfolding keys_install_list keys_open_list
    by (simp add: CACHE_NAME_def CACHE_NAME_EXTERNAL_def worker_inicial_def caches_keys_def)
  from activate_borra_versiones_viejas[of worker_inicial "''v2''" sin_red con_red]
  have "CACHE_NAME ''v1'' \<notin> set (caches_keys (caches (activate_listener ''v2'' ?w2))) \<and>
        CACHE_NAME_EXTERNAL ''v1'' \<notin> set (caches_keys (caches (activate_listener ''v2'' ?w2))) \<and>
        set (caches_keys (caches (activate_listener ''v2'' ?w2))) =
          {CACHE_NAME ''v2'', CACHE_NAME_EXTERNAL ''v2''}"
    by blast
  with k show ?thesis by (simp add: CACHE_NAME_def CACHE_NAME_EXTERNAL_def)
qed

text \<open>
  C10. Every run of the install listener, whatever the version, the network and the
  state before, and whether or not the precaching succeeds, sets the skip-waiting flag.
  So a worker whose installation has ended is never left waiting, and a message, of
  type \<open>SKIP_WAITING\<close> or any other, changes nothing in the state the installation
  leaves.
\<close>

theorem install_pide_activacion:
  "skipWaitingFlag (snd (install_listener v env w)) \<and>
   tras_instalar (install_listener v env w) \<noteq> EnEspera \<and>
   message_listener d (snd (install_listener v env w)) = snd (install_listener v env w)"
  by (simp add: install_listener_def message_listener_def tras_instalar_def Let_def split_def)

text \<open>
  C10 at the worker's own version: the flag is not set before, it is set even when the
  network is down, and with the network up the worker is activated at once.
\<close>

theorem install_pide_activacion_witness:
  "\<not> skipWaitingFlag worker_inicial \<and>
   skipWaitingFlag (snd (install_listener VERSION sin_red worker_inicial)) \<and>
   tras_instalar (install_listener VERSION con_red worker_inicial) = Activando \<and>
   message_listener (JObject [(''type'', JString ''SKIP_WAITING'')])
       (snd (install_listener VERSION con_red worker_inicial)) =
     snd (install_listener VERSION con_red worker_inicial)"
proof -
  have ok: "fst (install_listener VERSION con_red worker_inicial)"
    by (simp add: install_listener_def addAll_def Let_def split_def PRECACHE_URLS_def
        con_red_def hoja_def)
  note t = install_pide_activacion[of VERSION con_red worker_inicial
      "JObject [(''type'', JString ''SKIP_WAITING'')]"]
  from t ok have "tras_instalar (install_listener VERSION con_red worker_inicial) = Activando"
    by (simp add: tras_instalar_def split_def)
  moreover have "\<not> skipWaitingFlag worker_inicial" by (simp add: worker_inicial_def)
  ultimately show ?thesis
    using t install_pide_activacion[of VERSION sin_red worker_inicial JNull] by blast
qed

end
